theory Spec2Isabelle
  imports Complex_Main "HOL-Library.AList"
begin

section \<open>JavaScript values\<close>

text \<open>
  The booking form (\<^verbatim>\<open>src/app/components/booking/form.tsx\<close>) builds a Zod schema and
  hands it the parsed form data. The schema accepts any JavaScript value, so the
  values a validation call can meet are modelled as a datatype.

  A JavaScript string is a sequence of UTF-16 code units; \<^verbatim>\<open>length\<close> and
  \<^verbatim>\<open>z.string().min(2)\<close> count code units. A code unit is a natural number here, and
  \<open>js\<close> turns a literal of the program text into code units.
\<close>

type_synonym jsstring = "nat list"

definition js :: "string \<Rightarrow> jsstring" where
  "js s = map of_char s"

definition cu :: "char \<Rightarrow> nat" where
  "cu c = of_char c"

text \<open>
  \<open>JNum\<close> carries the mathematical value of a finite number (rounding to a double is
  not modelled; the schema only looks at the type of a number, and the \<^verbatim>\<open>Date\<close>
  constructor at its integral part). \<open>JDate\<close> is a \<^verbatim>\<open>Date\<close> object with its time value
  in milliseconds since the epoch, \<open>None\<close> for an invalid date (time value NaN). An
  object is the association list of its own properties; the schema reads properties
  by key and never observes their order.
\<close>

datatype jsval =
    JUndefined
  | JNull
  | JBool bool
  | JNum rat
  | JStr jsstring
  | JDate "int option"
  | JArr "jsval list"
  | JObj "(jsstring \<times> jsval) list"

text \<open>\<^verbatim>\<open>data[key]\<close> and \<^verbatim>\<open>key in data\<close> for a key of the program text.\<close>

definition get_prop :: "jsval \<Rightarrow> string \<Rightarrow> jsval" where
  "get_prop v k =
     (case v of
        JObj kvs \<Rightarrow> (case map_of kvs (js k) of None \<Rightarrow> JUndefined | Some x \<Rightarrow> x)
      | _ \<Rightarrow> JUndefined)"

definition has_prop :: "jsval \<Rightarrow> string \<Rightarrow> bool" where
  "has_prop v k = (case v of JObj kvs \<Rightarrow> map_of kvs (js k) \<noteq> None | _ \<Rightarrow> False)"

text \<open>Truthiness, as \<^verbatim>\<open>!val\<close>, \<^verbatim>\<open>a && b\<close> and \<^verbatim>\<open>if (x)\<close> test it.\<close>

fun truthy :: "jsval \<Rightarrow> bool" where
  "truthy JUndefined = False"
| "truthy JNull = False"
| "truthy (JBool b) = b"
| "truthy (JNum r) = (r \<noteq> 0)"
| "truthy (JStr s) = (s \<noteq> [])"
| "truthy (JDate t) = True"
| "truthy (JArr es) = True"
| "truthy (JObj kvs) = True"

text \<open>
  \<^verbatim>\<open>a > b\<close> on two \<^verbatim>\<open>Date\<close> objects compares their time values, and is false when
  either is NaN. The program applies this comparison to dates only (the output of
  \<^verbatim>\<open>z.coerce.date()\<close> and \<^verbatim>\<open>new Date(..)\<close>); other operands are not modelled.
\<close>

fun date_gt :: "jsval \<Rightarrow> jsval \<Rightarrow> bool" where
  "date_gt (JDate (Some a)) (JDate (Some b)) = (b < a)"
| "date_gt _ _ = False"

section \<open>\<^verbatim>\<open>JSON.parse\<close>\<close>

text \<open>
  The custodian field is a JSON text that the schema parses with \<^verbatim>\<open>JSON.parse\<close>
  (form.tsx:87). The function is modelled in two passes, both by recursion on their
  input: a lexer from code units to tokens, and a stack machine from tokens to a value.
  \<open>None\<close> stands for the \<^verbatim>\<open>SyntaxError\<close> that \<^verbatim>\<open>JSON.parse\<close> raises.
\<close>

datatype token =
    TLBrace | TRBrace | TLBrack | TRBrack | TColon | TComma
  | TStr jsstring | TNum rat | TTrue | TFalse | TNull

definition is_ws :: "nat \<Rightarrow> bool" where
  "is_ws c = (c = 32 \<or> c = 9 \<or> c = 10 \<or> c = 13)"

definition is_digit :: "nat \<Rightarrow> bool" where
  "is_digit c = (cu CHR ''0'' \<le> c \<and> c \<le> cu CHR ''9'')"

definition is_lower :: "nat \<Rightarrow> bool" where
  "is_lower c = (cu CHR ''a'' \<le> c \<and> c \<le> cu CHR ''z'')"

definition is_numchar :: "nat \<Rightarrow> bool" where
  "is_numchar c =
     (is_digit c \<or> c = cu CHR ''-'' \<or> c = cu CHR ''+'' \<or> c = cu CHR ''.''
      \<or> c = cu CHR ''e'' \<or> c = cu CHR ''E'')"

definition digits_val :: "nat list \<Rightarrow> nat" where
  "digits_val ds = foldl (\<lambda>a c. 10 * a + (c - cu CHR ''0'')) 0 ds"

definition hexval :: "nat \<Rightarrow> nat option" where
  "hexval c =
     (if is_digit c then Some (c - cu CHR ''0'')
      else if cu CHR ''a'' \<le> c \<and> c \<le> cu CHR ''f'' then Some (c - cu CHR ''a'' + 10)
      else if cu CHR ''A'' \<le> c \<and> c \<le> cu CHR ''F'' then Some (c - cu CHR ''A'' + 10)
      else None)"

text \<open>The character after a backslash inside a string (the four-digit hexadecimal escape is handled by the lexer).\<close>

definition escape :: "nat \<Rightarrow> nat option" where
  "escape c =
     (if c = cu CHR 0x22 \<or> c = cu CHR 0x5C \<or> c = cu CHR ''/'' then Some c
      else if c = cu CHR ''b'' then Some 8
      else if c = cu CHR ''f'' then Some 12
      else if c = cu CHR ''n'' then Some 10
      else if c = cu CHR ''r'' then Some 13
      else if c = cu CHR ''t'' then Some 9
      else None)"

text \<open>
  A number lexeme follows the JSON grammar: an optional minus, an integer part without
  a leading zero, an optional fraction, an optional exponent.
\<close>

definition json_exponent :: "jsstring \<Rightarrow> int option" where
  "json_exponent cs =
     (case cs of
        [] \<Rightarrow> Some 0
      | c # r \<Rightarrow>
          if c = cu CHR ''e'' \<or> c = cu CHR ''E'' then
            (let (neg, ds) =
               (case r of
                  [] \<Rightarrow> (False, [])
                | s # r' \<Rightarrow>
                    if s = cu CHR ''-'' then (True, r')
                    else if s = cu CHR ''+'' then (False, r')
                    else (False, r))
             in if ds \<noteq> [] \<and> list_all is_digit ds
                then Some (if neg then - int (digits_val ds) else int (digits_val ds))
                else None)
          else None)"

definition json_number :: "jsstring \<Rightarrow> rat option" where
  "json_number cs =
     (let (neg, r0) =
        (case cs of
           [] \<Rightarrow> (False, [])
         | c # r \<Rightarrow> if c = cu CHR ''-'' then (True, r) else (False, cs));
        ip = takeWhile is_digit r0;
        r1 = dropWhile is_digit r0;
        (dot, fp, r2) =
          (case r1 of
             [] \<Rightarrow> (False, [], [])
           | c # r \<Rightarrow>
               if c = cu CHR ''.'' then (True, takeWhile is_digit r, dropWhile is_digit r)
               else (False, [], r1))
      in if ip = [] \<or> (1 < length ip \<and> hd ip = cu CHR ''0'') \<or> (dot \<and> fp = []) then None
         else
           (case json_exponent r2 of
              None \<Rightarrow> None
            | Some e \<Rightarrow>
                (let m = of_nat (digits_val ip) + of_nat (digits_val fp) / 10 ^ length fp;
                     v = (if 0 \<le> e then m * 10 ^ nat e else m / 10 ^ nat (- e))
                 in Some (if neg then - v else v))))"

definition word_token :: "jsstring \<Rightarrow> token option" where
  "word_token w =
     (if w = js ''true'' then Some TTrue
      else if w = js ''false'' then Some TFalse
      else if w = js ''null'' then Some TNull
      else None)"

text \<open>
  The lexer state: between tokens; inside a string; after a backslash; inside the four
  hexadecimal digits of a code-unit escape; inside a number; inside a literal name. A number or
  a name ends at the first character that cannot continue it, and that character is
  then read from the start state.
\<close>

datatype lexstate =
    LStart
  | LStr jsstring
  | LEsc jsstring
  | LUni jsstring "nat list"
  | LNum jsstring
  | LWord jsstring

definition emit :: "token \<Rightarrow> token list option \<Rightarrow> token list option" where
  "emit t r = map_option (\<lambda>ts. t # ts) r"

function (sequential) lex :: "lexstate \<Rightarrow> jsstring \<Rightarrow> token list option" where
  "lex LStart [] = Some []"
| "lex (LNum acc) [] = map_option (\<lambda>x. [TNum x]) (json_number acc)"
| "lex (LWord acc) [] = map_option (\<lambda>t. [t]) (word_token acc)"
| "lex (LStr acc) [] = None"
| "lex (LEsc acc) [] = None"
| "lex (LUni acc ds) [] = None"
| "lex LStart (c # cs) =
     (if is_ws c then lex LStart cs
      else if c = cu CHR ''{'' then emit TLBrace (lex LStart cs)
      else if c = cu CHR ''}'' then emit TRBrace (lex LStart cs)
      else if c = cu CHR ''['' then emit TLBrack (lex LStart cs)
      else if c = cu CHR '']'' then emit TRBrack (lex LStart cs)
      else if c = cu CHR '':'' then emit TColon (lex LStart cs)
      else if c = cu CHR '','' then emit TComma (lex LStart cs)
      else if c = cu CHR 0x22 then lex (LStr []) cs
      else if c = cu CHR ''-'' \<or> is_digit c then lex (LNum [c]) cs
      else if is_lower c then lex (LWord [c]) cs
      else None)"
| "lex (LStr acc) (c # cs) =
     (if c = cu CHR 0x22 then emit (TStr acc) (lex LStart cs)
      else if c = cu CHR 0x5C then lex (LEsc acc) cs
      else if c < 32 then None
      else lex (LStr (acc @ [c])) cs)"
| "lex (LEsc acc) (c # cs) =
     (if c = cu CHR ''u'' then lex (LUni acc []) cs
      else (case escape c of
              None \<Rightarrow> None
            | Some d \<Rightarrow> lex (LStr (acc @ [d])) cs))"
| "lex (LUni acc ds) (c # cs) =
     (case hexval c of
        None \<Rightarrow> None
      | Some d \<Rightarrow>
          if length ds = 3
          then lex (LStr (acc @ [foldl (\<lambda>a h. 16 * a + h) 0 (ds @ [d])])) cs
          else lex (LUni acc (ds @ [d])) cs)"
| "lex (LNum acc) (c # cs) =
     (if is_numchar c then lex (LNum (acc @ [c])) cs
      else (case json_number acc of
              None \<Rightarrow> None
            | Some x \<Rightarrow> emit (TNum x) (lex LStart (c # cs))))"
| "lex (LWord acc) (c # cs) =
     (if is_lower c then lex (LWord (acc @ [c])) cs
      else (case word_token acc of
              None \<Rightarrow> None
            | Some t \<Rightarrow> emit t (lex LStart (c # cs))))"
  by pat_completeness auto

termination lex
  by (relation "measure (\<lambda>(s, cs). 2 * length cs + (case s of LStart \<Rightarrow> 0 | _ \<Rightarrow> 1))") auto

text \<open>
  The stack machine. A frame is an array under construction, an object waiting for a
  key, or an object waiting for the value of a key. The mode says what may come next.
  A repeated key keeps its first position and takes the last value.
\<close>

datatype frame =
    FArr "jsval list"
  | FObj "(jsstring \<times> jsval) list"
  | FKey "(jsstring \<times> jsval) list" jsstring

datatype pmode = MVal | MValOrEnd | MKeyOrEnd | MKey | MColon | MAfter | MDone jsval

fun deliver :: "jsval \<Rightarrow> frame list \<Rightarrow> (pmode \<times> frame list) option" where
  "deliver v [] = Some (MDone v, [])"
| "deliver v (FArr es # st) = Some (MAfter, FArr (es @ [v]) # st)"
| "deliver v (FKey kvs k # st) = Some (MAfter, FObj (AList.update k v kvs) # st)"
| "deliver v (FObj kvs # st) = None"

fun begin_value :: "token \<Rightarrow> frame list \<Rightarrow> (pmode \<times> frame list) option" where
  "begin_value TLBrack st = Some (MValOrEnd, FArr [] # st)"
| "begin_value TLBrace st = Some (MKeyOrEnd, FObj [] # st)"
| "begin_value (TStr s) st = deliver (JStr s) st"
| "begin_value (TNum x) st = deliver (JNum x) st"
| "begin_value TTrue st = deliver (JBool True) st"
| "begin_value TFalse st = deliver (JBool False) st"
| "begin_value TNull st = deliver JNull st"
| "begin_value _ st = None"

fun step :: "token \<Rightarrow> pmode \<times> frame list \<Rightarrow> (pmode \<times> frame list) option" where
  "step t (MVal, st) = begin_value t st"
| "step TRBrack (MValOrEnd, FArr es # st) = deliver (JArr es) st"
| "step t (MValOrEnd, st) = begin_value t st"
| "step TRBrace (MKeyOrEnd, FObj kvs # st) = deliver (JObj kvs) st"
| "step (TStr k) (MKeyOrEnd, FObj kvs # st) = Some (MColon, FKey kvs k # st)"
| "step (TStr k) (MKey, FObj kvs # st) = Some (MColon, FKey kvs k # st)"
| "step TColon (MColon, st) = Some (MVal, st)"
| "step TComma (MAfter, FArr es # st) = Some (MVal, FArr es # st)"
| "step TComma (MAfter, FObj kvs # st) = Some (MKey, FObj kvs # st)"
| "step TRBrack (MAfter, FArr es # st) = deliver (JArr es) st"
| "step TRBrace (MAfter, FObj kvs # st) = deliver (JObj kvs) st"
| "step _ _ = None"

fun run :: "pmode \<times> frame list \<Rightarrow> token list \<Rightarrow> jsval option" where
  "run (MDone v, st) [] = Some v"
| "run (m, st) [] = None"
| "run c (t # ts) = (case step t c of None \<Rightarrow> None | Some c' \<Rightarrow> run c' ts)"

definition JSON_parse :: "jsstring \<Rightarrow> jsval option" where
  "JSON_parse s = (case lex LStart s of None \<Rightarrow> None | Some ts \<Rightarrow> run (MVal, []) ts)"

section \<open>The runtime: clock, time zones and \<^verbatim>\<open>Date\<close>\<close>

text \<open>
  What the program asks of the JavaScript runtime and what ECMAScript leaves to the
  implementation is a parameter of the model:
  \<^item> \<open>clock\<close>: the time value of \<^verbatim>\<open>new Date()\<close> at the moment of the call;
  \<^item> \<open>Date_parse\<close>: \<^verbatim>\<open>Date.parse\<close> on a string, \<open>None\<close> for NaN (the formats beyond the
    ISO one, and the local time zone, are the implementation's);
  \<^item> \<open>toLocaleString\<close>: \<^verbatim>\<open>new Date(t).toLocaleString("en-US", {timeZone: z})\<close>;
  \<^item> \<open>ToString\<close>: the string an array or a plain object converts to;
  \<^item> \<open>LocalTime\<close> and \<open>UTC\<close>: the conversions between a time value and local time.
  The theorems below that mention a runtime \<open>env\<close> hold for every runtime.
\<close>

record js_env =
  clock :: int
  Date_parse :: "jsstring \<Rightarrow> int option"
  toLocaleString :: "int \<Rightarrow> jsstring \<Rightarrow> jsstring"
  ToString :: "jsval \<Rightarrow> jsstring"
  LocalTime :: "int \<Rightarrow> int"
  UTC :: "int \<Rightarrow> int"

text \<open>
  Modelled from the spec: \<^verbatim>\<open>getHints\<close> (\<^verbatim>\<open>~/utils/client-hints\<close>, form.tsx:18), whose
  return value is the type of \<^verbatim>\<open>hints\<close> (form.tsx:68), is not among the sources. The
  schema reads the \<^verbatim>\<open>timeZone\<close> of the hints only, and the spec gives it as an IANA zone
  name; so \<open>toLocaleString\<close> is total on it (the \<^verbatim>\<open>RangeError\<close> of an unknown zone does
  not arise).
\<close>

record hints =
  timeZone :: jsstring

text \<open>\<^verbatim>\<open>TimeClip\<close>: a time value is an integral number of at most 8.64e15 milliseconds.\<close>

definition TimeClip :: "rat \<Rightarrow> int option" where
  "TimeClip r =
     (if \<bar>r\<bar> \<le> 8640000000000000 then Some (if 0 \<le> r then \<lfloor>r\<rfloor> else \<lceil>r\<rceil>) else None)"

text \<open>
  \<^verbatim>\<open>new Date(value)\<close>, as \<^verbatim>\<open>z.coerce.date()\<close> calls it: a date is copied, a string is
  parsed, an array or object is converted to a string and parsed, anything else is
  converted to a number.
\<close>

fun Date_new :: "js_env \<Rightarrow> jsval \<Rightarrow> int option" where
  "Date_new env (JDate t) = t"
| "Date_new env JUndefined = None"
| "Date_new env JNull = Some 0"
| "Date_new env (JBool b) = Some (if b then 1 else 0)"
| "Date_new env (JNum r) = TimeClip r"
| "Date_new env (JStr s) = Date_parse env s"
| "Date_new env (JArr es) = Date_parse env (ToString env (JArr es))"
| "Date_new env (JObj kvs) = Date_parse env (ToString env (JObj kvs))"

section \<open>Zod\<close>

text \<open>
  The schema combinators the form uses, as a datatype, and Zod's synchronous parser as
  an interpreter of it. A refinement and a transform keep the function the program
  passes. A thrown exception is \<open>Inl\<close>; Zod catches none.
\<close>

datatype js_error = SyntaxError | RangeError | Error string

datatype pathelem = Key string | Index nat

datatype issue_code = invalid_type | invalid_date | too_small | custom

datatype issue = Issue (code: issue_code) (path: "pathelem list") (message: string)

text \<open>Zod's parse status: \<open>Dirty\<close> has issues and a value, \<open>Aborted\<close> has no value.\<close>

datatype pstatus = Valid | Dirty | Aborted

type_synonym presult = "js_error + issue list \<times> pstatus \<times> jsval"

text \<open>
  \<^item> \<open>ZString checks\<close>: \<^verbatim>\<open>z.string()\<close> followed by \<^verbatim>\<open>.min(n, message)\<close> checks;
  \<^item> \<open>ZCoerceDate\<close>: \<^verbatim>\<open>z.coerce.date()\<close>;
  \<^item> \<open>ZArray\<close>, \<open>ZOptional\<close>, \<open>ZNullable\<close>: \<^verbatim>\<open>z.array(s)\<close>, \<^verbatim>\<open>s.optional()\<close>, \<^verbatim>\<open>s.nullable()\<close>;
  \<^item> \<open>ZObject shape\<close>: \<^verbatim>\<open>z.object(shape)\<close>, unknown keys stripped;
  \<^item> \<open>ZRefine s check message path\<close>: \<^verbatim>\<open>s.refine(check, {message, path})\<close>;
  \<^item> \<open>ZTransform s f\<close>: \<^verbatim>\<open>s.transform(f)\<close>; \<open>f\<close> returns the messages it passed to
    \<^verbatim>\<open>ctx.addIssue\<close> (code \<^verbatim>\<open>custom\<close>) and its value, or throws;
  \<^item> \<open>ZPipe a b\<close>: \<^verbatim>\<open>a.pipe(b)\<close>.
\<close>

datatype schema =
    ZString "(nat \<times> string) list"
  | ZCoerceDate
  | ZArray schema
  | ZOptional schema
  | ZNullable schema
  | ZObject "(string \<times> schema) list"
  | ZRefine schema "js_env \<Rightarrow> jsval \<Rightarrow> bool" string "pathelem list"
  | ZTransform schema "jsval \<Rightarrow> js_error + string list \<times> jsval"
  | ZPipe schema schema

text \<open>\<^verbatim>\<open>getParsedType\<close> and the default error map's message for \<^verbatim>\<open>invalid_type\<close>.\<close>

fun parsed_type :: "jsval \<Rightarrow> string" where
  "parsed_type JUndefined = ''undefined''"
| "parsed_type JNull = ''null''"
| "parsed_type (JBool b) = ''boolean''"
| "parsed_type (JNum r) = ''number''"
| "parsed_type (JStr s) = ''string''"
| "parsed_type (JDate t) = ''date''"
| "parsed_type (JArr es) = ''array''"
| "parsed_type (JObj kvs) = ''object''"

definition invalid_type_issue :: "string \<Rightarrow> jsval \<Rightarrow> pathelem list \<Rightarrow> issue" where
  "invalid_type_issue expected v p =
     Issue invalid_type p
       (if v = JUndefined then ''Required''
        else ''Expected '' @ expected @ '', received '' @ parsed_type v)"

definition INVALID :: "issue list \<Rightarrow> presult" where
  "INVALID iss = Inr (iss, Aborted, JUndefined)"

text \<open>
  The results of a loop over fields or elements, in the order of evaluation: the first
  exception ends the call.
\<close>

fun sequence :: "('e + 'a) list \<Rightarrow> 'e + 'a list" where
  "sequence [] = Inr []"
| "sequence (Inl e # rs) = Inl e"
| "sequence (Inr x # rs) = (case sequence rs of Inl e \<Rightarrow> Inl e | Inr xs \<Rightarrow> Inr (x # xs))"

text \<open>\<^verbatim>\<open>ParseStatus.dirty()\<close>, \<^verbatim>\<open>mergeArray\<close> and \<^verbatim>\<open>mergeObjectSync\<close>.\<close>

definition dirty :: "pstatus \<Rightarrow> pstatus" where
  "dirty st = (if st = Valid then Dirty else st)"

fun mergeArray :: "pstatus \<Rightarrow> jsval list \<Rightarrow> (pstatus \<times> jsval) list \<Rightarrow> pstatus \<times> jsval" where
  "mergeArray st arrayValue [] = (st, JArr arrayValue)"
| "mergeArray st arrayValue ((s, v) # results) =
     (if s = Aborted then (Aborted, JUndefined)
      else mergeArray (if s = Dirty then dirty st else st) (arrayValue @ [v]) results)"

fun mergeObjectSync ::
  "pstatus \<Rightarrow> (jsstring \<times> jsval) list \<Rightarrow> (string \<times> (pstatus \<times> jsval) \<times> bool) list
     \<Rightarrow> pstatus \<times> jsval" where
  "mergeObjectSync st finalObject [] = (st, JObj finalObject)"
| "mergeObjectSync st finalObject ((k, (s, v), alwaysSet) # pairs) =
     (if s = Aborted then (Aborted, JUndefined)
      else mergeObjectSync (if s = Dirty then dirty st else st)
             (if k \<noteq> ''__proto__'' \<and> (v \<noteq> JUndefined \<or> alwaysSet)
              then AList.update (js k) v finalObject else finalObject)
             pairs)"

fun string_checks :: "(nat \<times> string) list \<Rightarrow> jsstring \<Rightarrow> pathelem list \<Rightarrow> issue list" where
  "string_checks [] s p = []"
| "string_checks ((n, msg) # cs) s p =
     (if length s < n then Issue too_small p msg # string_checks cs s p
      else string_checks cs s p)"

text \<open>
  \<^verbatim>\<open>_parse\<close> of each schema class. The result carries the issues the call added to the
  context, in order. A type mismatch and an invalid date abort; a failed check, a
  failed refinement and an issue added by a transform leave the result dirty. A
  refinement does not run on an aborted value, a transform runs on a valid value only,
  and a pipe passes a valid value only to its second schema.
\<close>

fun parse :: "js_env \<Rightarrow> schema \<Rightarrow> pathelem list \<Rightarrow> jsval \<Rightarrow> presult" where
  "parse env (ZString checks) p v =
     (case v of
        JStr s \<Rightarrow>
          (let iss = string_checks checks s p
           in Inr (iss, if iss = [] then Valid else Dirty, v))
      | _ \<Rightarrow> INVALID [invalid_type_issue ''string'' v p])"
| "parse env ZCoerceDate p v =
     (case Date_new env v of
        None \<Rightarrow> INVALID [Issue invalid_date p ''Invalid date'']
      | Some t \<Rightarrow> Inr ([], Valid, JDate (Some t)))"
| "parse env (ZArray s) p v =
     (case v of
        JArr es \<Rightarrow>
          (case sequence (map (\<lambda>(i, e). parse env s (p @ [Index i]) e) (enumerate 0 es)) of
             Inl e \<Rightarrow> Inl e
           | Inr rs \<Rightarrow>
               (case mergeArray Valid [] (map snd rs) of
                  (st, out) \<Rightarrow> Inr (concat (map fst rs), st, out)))
      | _ \<Rightarrow> INVALID [invalid_type_issue ''array'' v p])"
| "parse env (ZOptional s) p v =
     (if v = JUndefined then Inr ([], Valid, JUndefined) else parse env s p v)"
| "parse env (ZNullable s) p v =
     (if v = JNull then Inr ([], Valid, JNull) else parse env s p v)"
| "parse env (ZObject shape) p v =
     (case v of
        JObj kvs \<Rightarrow>
          (case sequence (map (\<lambda>(k, s). parse env s (p @ [Key k]) (get_prop v k)) shape) of
             Inl e \<Rightarrow> Inl e
           | Inr rs \<Rightarrow>
               (case mergeObjectSync Valid []
                       (map (\<lambda>((k, s), r). (k, snd r, has_prop v k)) (zip shape rs)) of
                  (st, out) \<Rightarrow> Inr (concat (map fst rs), st, out)))
      | _ \<Rightarrow> INVALID [invalid_type_issue ''object'' v p])"
| "parse env (ZRefine s check msg rpath) p v =
     (case parse env s p v of
        Inl e \<Rightarrow> Inl e
      | Inr (iss, st, x) \<Rightarrow>
          if st = Aborted then INVALID iss
          else if check env x then Inr (iss, st, x)
          else Inr (iss @ [Issue custom (p @ rpath) msg], dirty st, x))"
| "parse env (ZTransform s f) p v =
     (case parse env s p v of
        Inl e \<Rightarrow> Inl e
      | Inr (iss, st, x) \<Rightarrow>
          if st \<noteq> Valid then Inr (iss, st, x)
          else (case f x of
                  Inl e \<Rightarrow> Inl e
                | Inr (msgs, y) \<Rightarrow>
                    Inr (iss @ map (Issue custom p) msgs, if msgs = [] then Valid else Dirty, y)))"
| "parse env (ZPipe a b) p v =
     (case parse env a p v of
        Inl e \<Rightarrow> Inl e
      | Inr (iss, st, x) \<Rightarrow>
          if st = Aborted then INVALID iss
          else if st = Dirty then Inr (iss, Dirty, x)
          else (case parse env b p x of
                  Inl e \<Rightarrow> Inl e
                | Inr (iss', st', y) \<Rightarrow> Inr (iss @ iss', st', y)))"

text \<open>
  \<^verbatim>\<open>safeParse\<close>: the data on a valid result, the issues otherwise; an exception of a
  transform passes through.
\<close>

datatype sp_result = Success jsval | Failure "issue list" | Threw js_error

definition safeParse :: "js_env \<Rightarrow> schema \<Rightarrow> jsval \<Rightarrow> sp_result" where
  "safeParse env s v =
     (case parse env s [] v of
        Inl e \<Rightarrow> Threw e
      | Inr (iss, st, x) \<Rightarrow>
          if st = Valid then Success x
          else if iss = [] then Threw (Error ''Validation failed but no issues detected.'')
          else Failure iss)"

text \<open>
  \<^verbatim>\<open>schema.extend(augmentation)\<close> spreads the augmentation over the shape: a key the
  shape has keeps its place and takes the new schema, a new key goes to the end. Only
  an object schema has \<^verbatim>\<open>extend\<close>.
\<close>

fun extend :: "schema \<Rightarrow> (string \<times> schema) list \<Rightarrow> schema" where
  "extend (ZObject shape) augmentation =
     ZObject (foldl (\<lambda>sh (k, s). AList.update k s sh) shape augmentation)"
| "extend s augmentation = s"

section \<open>\<^verbatim>\<open>BookingFormSchema\<close>\<close>

text \<open>
  Modelled from the spec: the enumeration \<^verbatim>\<open>BookingStatus\<close> comes from the Prisma
  client (form.tsx:2), which is not among the sources; the spec lists its values. An
  absent \<^verbatim>\<open>status\<close> is \<open>None\<close>; every value of the enumeration is a non-empty string,
  hence truthy.
\<close>

datatype BookingStatus = DRAFT | RESERVED | ONGOING | OVERDUE | COMPLETED | CANCELLED | ARCHIVED

text \<open>\<^verbatim>\<open>z.NEVER\<close>, the value a transform returns after it has added an issue.\<close>

definition NEVER :: jsval where
  "NEVER = JObj [(js ''status'', JStr (js ''aborted''))]"

text \<open>
  The transform of the custodian field (form.tsx:79-88). Its argument is the output
  of \<^verbatim>\<open>z.string()\<close>, a string; \<^verbatim>\<open>JSON.parse\<close> of another value does not occur and stands
  as an exception.
\<close>

definition custodian_transform :: "jsval \<Rightarrow> js_error + string list \<times> jsval" where
  "custodian_transform val =
     (if \<not> truthy val \<and> val = JStr [] then Inr ([''Please select a custodian''], NEVER)
      else (case val of
              JStr s \<Rightarrow> (case JSON_parse s of None \<Rightarrow> Inl SyntaxError | Some x \<Rightarrow> Inr ([], x))
            | _ \<Rightarrow> Inl SyntaxError))"

text \<open>The schema of the custodian field (form.tsx:77-95).\<close>

definition custodianSchema :: schema where
  "custodianSchema =
     ZPipe (ZTransform (ZString []) custodian_transform)
       (ZObject
          [(''id'', ZString []),
           (''name'', ZString []),
           (''userId'', ZNullable (ZOptional (ZString [])))])"

text \<open>\<^verbatim>\<open>baseSchema\<close> (form.tsx:73-98).\<close>

definition baseSchema :: schema where
  "baseSchema = ZObject
     [(''name'', ZString [(2, ''Name is required'')]),
      (''assetIds'', ZOptional (ZArray (ZString []))),
      (''description'', ZOptional (ZString [])),
      (''custodian'', custodianSchema),
      (''startDate'', ZOptional ZCoerceDate),
      (''endDate'', ZOptional ZCoerceDate)]"

text \<open>
  The \<^verbatim>\<open>now\<close> of the start-date refinement (form.tsx:102-111): with a time-zone hint,
  the current instant is rendered as a string in that zone and the string is read
  back by the \<^verbatim>\<open>Date\<close> constructor; without one it is the current instant.
\<close>

definition now_of :: "js_env \<Rightarrow> hints option \<Rightarrow> int option" where
  "now_of env h =
     (case h of
        None \<Rightarrow> Some (clock env)
      | Some hs \<Rightarrow>
          if timeZone hs \<noteq> []
          then Date_new env (JStr (toLocaleString env (clock env) (timeZone hs)))
          else Some (clock env))"

text \<open>\<^verbatim>\<open>startDateSchema\<close> (form.tsx:100-117).\<close>

definition startDateSchema :: "hints option \<Rightarrow> schema" where
  "startDateSchema h =
     ZRefine ZCoerceDate (\<lambda>env data. date_gt data (JDate (now_of env h)))
       ''Start date must be in the future'' []"

text \<open>\<^verbatim>\<open>fullSchema\<close> (form.tsx:120-123).\<close>

definition fullSchema :: "hints option \<Rightarrow> schema" where
  "fullSchema h =
     extend baseSchema [(''startDate'', startDateSchema h), (''endDate'', ZCoerceDate)]"

text \<open>
  The check of the object refinement (form.tsx:129 and 139-140):
  \<^verbatim>\<open>data.endDate && data.startDate && data.endDate > data.startDate\<close>.
\<close>

definition end_after_start :: "js_env \<Rightarrow> jsval \<Rightarrow> bool" where
  "end_after_start env data =
     (truthy (get_prop data ''endDate'') \<and> truthy (get_prop data ''startDate'')
      \<and> date_gt (get_prop data ''endDate'') (get_prop data ''startDate''))"

text \<open>\<^verbatim>\<open>fullSchemaWithId\<close> (form.tsx:126-134).\<close>

definition fullSchemaWithId :: "hints option \<Rightarrow> schema" where
  "fullSchemaWithId h =
     ZRefine (extend (fullSchema h) [(''id'', ZString [])]) end_after_start
       ''End date cannot be earlier than start date'' [Key ''endDate'']"

text \<open>
  The selector (form.tsx:136-173). The type of \<^verbatim>\<open>action\<close> names three strings, and the
  \<^verbatim>\<open>switch\<close> has a \<^verbatim>\<open>default\<close> for any other. A \<^verbatim>\<open>"save"\<close> whose status matches no
  case of the inner \<^verbatim>\<open>switch\<close> falls through to that \<^verbatim>\<open>default\<close>.
\<close>

definition BookingFormSchema ::
  "hints option \<Rightarrow> string \<Rightarrow> BookingStatus option \<Rightarrow> js_error + schema" where
  "BookingFormSchema h action status =
     (if action = ''new'' then
        Inr (ZRefine (fullSchema h) end_after_start
               ''End date cannot be earlier than start date'' [Key ''endDate''])
      else if action = ''reserve'' then Inr (fullSchemaWithId h)
      else if action = ''save'' then
        (case status of
           None \<Rightarrow> Inl (Error ''Status is required for save action.'')
         | Some DRAFT \<Rightarrow> Inr (fullSchemaWithId h)
         | Some RESERVED \<Rightarrow> Inr baseSchema
         | Some ONGOING \<Rightarrow> Inr baseSchema
         | Some OVERDUE \<Rightarrow> Inr baseSchema
         | Some _ \<Rightarrow> Inr baseSchema)
      else Inr baseSchema)"

text \<open>
  A validation call: the schema is selected, then \<^verbatim>\<open>safeParse\<close> runs on the form data
  (form.tsx:241-247 hands the schema to \<^verbatim>\<open>useZorm\<close>, which validates with it).
\<close>

definition validate ::
  "js_env \<Rightarrow> hints option \<Rightarrow> string \<Rightarrow> BookingStatus option \<Rightarrow> jsval \<Rightarrow> sp_result" where
  "validate env h action status v =
     (case BookingFormSchema h action status of
        Inl e \<Rightarrow> Threw e
      | Inr s \<Rightarrow> safeParse env s v)"

section \<open>The start-date handler\<close>

text \<open>Time arithmetic of ECMAScript: days, time within the day, and their composition.\<close>

definition msPerDay :: int where
  "msPerDay = 86400000"

definition Day :: "int \<Rightarrow> int" where
  "Day t = t div msPerDay"

definition TimeWithinDay :: "int \<Rightarrow> int" where
  "TimeWithinDay t = t mod msPerDay"

definition HourFromTime :: "int \<Rightarrow> int" where
  "HourFromTime t = (t div 3600000) mod 24"

definition MinFromTime :: "int \<Rightarrow> int" where
  "MinFromTime t = (t div 60000) mod 60"

definition SecFromTime :: "int \<Rightarrow> int" where
  "SecFromTime t = (t div 1000) mod 60"

definition msFromTime :: "int \<Rightarrow> int" where
  "msFromTime t = t mod 1000"

definition MakeTime :: "int \<Rightarrow> int \<Rightarrow> int \<Rightarrow> int \<Rightarrow> int" where
  "MakeTime h m s ms = h * 3600000 + m * 60000 + s * 1000 + ms"

definition MakeDate :: "int \<Rightarrow> int \<Rightarrow> int" where
  "MakeDate day time = day * msPerDay + time"

text \<open>
  \<^verbatim>\<open>date.setHours(h, m, s)\<close> on a valid date: the hour, minute and second of the local
  time are replaced, the milliseconds kept; the result is the new time value, \<open>None\<close>
  when it leaves the range of \<^verbatim>\<open>Date\<close>.
\<close>

definition setHours :: "js_env \<Rightarrow> int \<Rightarrow> int \<Rightarrow> int \<Rightarrow> int \<Rightarrow> int option" where
  "setHours env t h m s =
     (let lt = LocalTime env t;
          date = MakeDate (Day lt) (MakeTime h m s (msFromTime lt))
      in TimeClip (of_int (UTC env date)))"

text \<open>The civil date (year, month, day) of a day number, in the proleptic Gregorian calendar.\<close>

definition civil_from_days :: "int \<Rightarrow> int \<times> int \<times> int" where
  "civil_from_days z =
     (let z' = z + 719468;
          era = z' div 146097;
          doe = z' - era * 146097;
          yoe = (doe - doe div 1460 + doe div 36524 - doe div 146096) div 365;
          doy = doe - (365 * yoe + yoe div 4 - yoe div 100);
          mp = (5 * doy + 2) div 153;
          d = doy - (153 * mp + 2) div 5 + 1;
          m = (if mp < 10 then mp + 3 else mp - 9);
          y = yoe + era * 400
      in (if m \<le> 2 then y + 1 else y, m, d))"

function dec :: "nat \<Rightarrow> jsstring" where
  "dec n = (if n < 10 then [cu CHR ''0'' + n] else dec (n div 10) @ [cu CHR ''0'' + n mod 10])"
  by pat_completeness auto

termination dec
  by (relation "measure id") auto

definition pad :: "nat \<Rightarrow> int \<Rightarrow> jsstring" where
  "pad w n =
     (let ds = dec (nat \<bar>n\<bar>)
      in (if n < 0 then [cu CHR ''-''] else []) @ replicate (w - length ds) (cu CHR ''0'') @ ds)"

definition date_string :: "int \<Rightarrow> jsstring" where
  "date_string day =
     (case civil_from_days day of
        (y, m, d) \<Rightarrow> pad 4 y @ [cu CHR ''-''] @ pad 2 m @ [cu CHR ''-''] @ pad 2 d)"

text \<open>
  Modelled from the spec: \<^verbatim>\<open>dateForDateTimeInputValue\<close> (\<^verbatim>\<open>~/utils/date-fns\<close>,
  form.tsx:19) is not among the sources. The spec has it give the local date and time
  of a date in the textual form of the date-time input control, down to the seconds,
  which the handler then removes: \<^verbatim>\<open>YYYY-MM-DDTHH:mm:ss\<close>.
\<close>

definition dateForDateTimeInputValue :: "js_env \<Rightarrow> int \<Rightarrow> jsstring" where
  "dateForDateTimeInputValue env t =
     (let lt = LocalTime env t
      in date_string (Day lt) @ [cu CHR ''T''] @ pad 2 (HourFromTime lt) @ [cu CHR '':'']
         @ pad 2 (MinFromTime lt) @ [cu CHR '':''] @ pad 2 (SecFromTime lt))"

text \<open>\<^verbatim>\<open>isNewBooking = !id\<close> (form.tsx:223); the id is a string or absent.\<close>

definition isNewBooking :: "jsstring option \<Rightarrow> bool" where
  "isNewBooking id' = (case id' of None \<Rightarrow> True | Some s \<Rightarrow> s = [])"

text \<open>
  The \<^verbatim>\<open>onChange\<close> handler of the start-date input (form.tsx:453-471), as a function
  from the booking id, the end date the form holds (a string or absent) and the new
  value of the input to the end date the form holds afterwards. The spec does not say
  what the formatting helper does with an invalid date; the model has the call raise
  there, as \<^verbatim>\<open>toISOString\<close> does.
\<close>

definition onStartDateChange ::
  "js_env \<Rightarrow> jsstring option \<Rightarrow> jsstring option \<Rightarrow> jsstring \<Rightarrow> js_error + jsstring option" where
  "onStartDateChange env id' endDate val =
     (let newStartDate = Date_new env (JStr val)
      in case endDate of
           None \<Rightarrow> Inr endDate
         | Some e \<Rightarrow>
             if isNewBooking id' \<and> truthy (JStr e)
                \<and> date_gt (JDate newStartDate) (JDate (Date_new env (JStr e)))
             then
               (case newStartDate of
                  None \<Rightarrow> Inr endDate
                | Some t \<Rightarrow>
                    (case setHours env t 18 0 0 of
                       None \<Rightarrow> Inl RangeError
                     | Some u \<Rightarrow>
                         (let newEndDate = dateForDateTimeInputValue env u
                          in Inr (Some (take (length newEndDate - 3) newEndDate)))))
             else Inr endDate)"

section \<open>A sample runtime\<close>

text \<open>
  For the concrete calls below: a runtime whose local time zone is UTC, asked at
  2024-01-01T00:00:00Z, whose \<^verbatim>\<open>Date.parse\<close> reads the format of the date-time input
  control, \<^verbatim>\<open>YYYY-MM-DDTHH:mm\<close>, and nothing else. The concrete calls pass no hints and
  no arrays or objects as dates, so \<open>toLocaleString\<close> and \<open>ToString\<close> are not exercised.
\<close>

definition days_from_civil :: "int \<Rightarrow> int \<Rightarrow> int \<Rightarrow> int" where
  "days_from_civil y m d =
     (let y' = (if m \<le> 2 then y - 1 else y);
          era = y' div 400;
          yoe = y' - era * 400;
          doy = (153 * (if 2 < m then m - 3 else m + 9) + 2) div 5 + d - 1;
          doe = yoe * 365 + yoe div 4 - yoe div 100 + doy
      in era * 146097 + doe - 719468)"

definition parse_datetime_local :: "jsstring \<Rightarrow> int option" where
  "parse_datetime_local s =
     (let ys = take 4 s; ms = take 2 (drop 5 s); ds = take 2 (drop 8 s);
          hs = take 2 (drop 11 s); ns = take 2 (drop 14 s)
      in if length s = 16 \<and> list_all is_digit (ys @ ms @ ds @ hs @ ns)
            \<and> s ! 4 = cu CHR ''-'' \<and> s ! 7 = cu CHR ''-'' \<and> s ! 10 = cu CHR ''T''
            \<and> s ! 13 = cu CHR '':''
            \<and> 1 \<le> digits_val ms \<and> digits_val ms \<le> 12
            \<and> 1 \<le> digits_val ds \<and> digits_val ds \<le> 31
            \<and> digits_val hs \<le> 23 \<and> digits_val ns \<le> 59
         then Some (MakeDate
                      (days_from_civil (int (digits_val ys)) (int (digits_val ms)) (int (digits_val ds)))
                      (MakeTime (int (digits_val hs)) (int (digits_val ns)) 0 0))
         else None)"

definition utc_env :: js_env where
  "utc_env =
     \<lparr>clock = 1704067200000,
      Date_parse = parse_datetime_local,
      toLocaleString = (\<lambda>t z. []),
      ToString = (\<lambda>v. []),
      LocalTime = (\<lambda>t. t),
      UTC = (\<lambda>t. t)\<rparr>"

section \<open>Observations used in the proofs\<close>

text \<open>A schema without a transform: no function of the program runs that could throw.\<close>

fun never_throws :: "schema \<Rightarrow> bool" where
  "never_throws (ZString cs) = True"
| "never_throws ZCoerceDate = True"
| "never_throws (ZArray s) = never_throws s"
| "never_throws (ZOptional s) = never_throws s"
| "never_throws (ZNullable s) = never_throws s"
| "never_throws (ZObject shape) = list_all (\<lambda>(k, s). never_throws s) shape"
| "never_throws (ZRefine s c m rp) = never_throws s"
| "never_throws (ZTransform s f) = False"
| "never_throws (ZPipe a b) = (never_throws a \<and> never_throws b)"

text \<open>The issues, the status and the value of a result (an exception has none).\<close>

definition issues_of :: "presult \<Rightarrow> issue list" where
  "issues_of r = (case r of Inl e \<Rightarrow> [] | Inr (iss, st, x) \<Rightarrow> iss)"

definition status_of :: "presult \<Rightarrow> pstatus" where
  "status_of r = (case r of Inl e \<Rightarrow> Aborted | Inr (iss, st, x) \<Rightarrow> st)"

definition value_of :: "presult \<Rightarrow> jsval" where
  "value_of r = (case r of Inl e \<Rightarrow> JUndefined | Inr (iss, st, x) \<Rightarrow> x)"

text \<open>The results of the fields of a shape on an input, in the order of the shape, and the pairs
  \<^verbatim>\<open>mergeObjectSync\<close> receives for them.\<close>

definition field_results :: "js_env \<Rightarrow> (string \<times> schema) list \<Rightarrow> pathelem list \<Rightarrow> jsval \<Rightarrow> presult list" where
  "field_results env shape p v = map (\<lambda>(k, s). parse env s (p @ [Key k]) (get_prop v k)) shape"

definition field_pairs ::
  "js_env \<Rightarrow> (string \<times> schema) list \<Rightarrow> pathelem list \<Rightarrow> jsval
     \<Rightarrow> (string \<times> (pstatus \<times> jsval) \<times> bool) list" where
  "field_pairs env shape p v =
     map (\<lambda>(k, s). (k, (status_of (parse env s (p @ [Key k]) (get_prop v k)),
                        value_of (parse env s (p @ [Key k]) (get_prop v k))), has_prop v k)) shape"

text \<open>The shapes the selector builds: the six fields of the base schema, with the schemas of the
  two dates as parameters, followed by the fields \<^verbatim>\<open>extend\<close> adds at the end.\<close>

definition booking_shape :: "schema \<Rightarrow> schema \<Rightarrow> (string \<times> schema) list \<Rightarrow> (string \<times> schema) list" where
  "booking_shape sd ed extra =
     [(''name'', ZString [(2, ''Name is required'')]),
      (''assetIds'', ZOptional (ZArray (ZString []))),
      (''description'', ZOptional (ZString [])),
      (''custodian'', custodianSchema),
      (''startDate'', sd),
      (''endDate'', ed)] @ extra"

text \<open>\<^verbatim>\<open>JSON.parse\<close> is not called on the custodian of the input, or returns.\<close>

definition custodian_returns :: "jsval \<Rightarrow> bool" where
  "custodian_returns v =
     (case get_prop v ''custodian'' of
        JStr s \<Rightarrow> s = [] \<or> JSON_parse s \<noteq> None
      | _ \<Rightarrow> True)"

text \<open>
  A custodian the schema accepts: a non-empty string that \<^verbatim>\<open>JSON.parse\<close> reads as an
  object whose \<^verbatim>\<open>id\<close> and \<^verbatim>\<open>name\<close> are strings and whose \<^verbatim>\<open>userId\<close> is absent, null or
  a string.
\<close>

definition is_string :: "jsval \<Rightarrow> bool" where
  "is_string v = (case v of JStr s \<Rightarrow> True | _ \<Rightarrow> False)"

definition well_formed_custodian :: "jsval \<Rightarrow> bool" where
  "well_formed_custodian c =
     (case c of
        JStr s \<Rightarrow>
          s \<noteq> [] \<and>
          (case JSON_parse s of
             Some (JObj kvs) \<Rightarrow>
               is_string (get_prop (JObj kvs) ''id'') \<and> is_string (get_prop (JObj kvs) ''name'')
               \<and> (get_prop (JObj kvs) ''userId'' = JUndefined
                    \<or> get_prop (JObj kvs) ''userId'' = JNull
                    \<or> is_string (get_prop (JObj kvs) ''userId''))
           | _ \<Rightarrow> False)
      | _ \<Rightarrow> False)"

text \<open>The messages of the refinements a schema contains.\<close>

fun refinements :: "schema \<Rightarrow> string list" where
  "refinements (ZString cs) = []"
| "refinements ZCoerceDate = []"
| "refinements (ZArray s) = refinements s"
| "refinements (ZOptional s) = refinements s"
| "refinements (ZNullable s) = refinements s"
| "refinements (ZObject shape) = concat (map (\<lambda>(k, s). refinements s) shape)"
| "refinements (ZRefine s c m rp) = refinements s @ [m]"
| "refinements (ZTransform s f) = refinements s"
| "refinements (ZPipe a b) = refinements a @ refinements b"

text \<open>
  The local time 18:00 on the local calendar day of an instant \<open>s\<close>, with the
  milliseconds of \<open>s\<close>: what \<^verbatim>\<open>setHours(18, 0, 0)\<close> asks for.
\<close>

definition six_pm :: "js_env \<Rightarrow> int \<Rightarrow> int" where
  "six_pm env s = MakeDate (Day (LocalTime env s)) (MakeTime 18 0 0 (msFromTime (LocalTime env s)))"

section \<open>Properties of the parser\<close>

lemma js_eq_iff [simp]: "js a = js b \<longleftrightarrow> a = b"
  by (simp add: js_def inj_map_eq_map inj_of_char)

lemma sequence_map_Inr:
  "\<forall>x\<in>set xs. \<exists>y. f x = Inr y \<Longrightarrow> sequence (map f xs) = Inr (map (\<lambda>x. projr (f x)) xs)"
  by (induction xs) auto

lemma never_throws_Inr: "never_throws s \<Longrightarrow> \<exists>r. parse env s p v = Inr r"
proof (induction env s p v rule: parse.induct)
  case (1 env checks p v)
  then show ?case by (cases v) (simp_all add: INVALID_def Let_def)
next
  case (2 env p v)
  then show ?case by (simp add: INVALID_def split: option.split)
next
  case (3 env s p v)
  show ?case
  proof (cases v)
    case (JArr es)
    have "\<forall>x\<in>set (enumerate 0 es). \<exists>y. (\<lambda>(i, e). parse env s (p @ [Index i]) e) x = Inr y"
      using 3 JArr by auto
    from sequence_map_Inr [OF this] show ?thesis
      using JArr by (simp split: prod.split)
  qed (simp_all add: INVALID_def)
next
  case (4 env s p v)
  then show ?case by simp
next
  case (5 env s p v)
  then show ?case by simp
next
  case (6 env shape p v)
  show ?case
  proof (cases v)
    case (JObj kvs)
    have "\<forall>x\<in>set shape. \<exists>y. (\<lambda>(k, s). parse env s (p @ [Key k]) (get_prop v k)) x = Inr y"
      using 6 JObj by (auto simp: list_all_iff)
    from sequence_map_Inr [OF this] show ?thesis
      using JObj by (simp split: prod.split)
  qed (simp_all add: INVALID_def)
next
  case (7 env s check msg rpath p v)
  then obtain r where "parse env s p v = Inr r" by auto
  then show ?case by (cases r) (simp add: INVALID_def)
next
  case (8 env s f p v)
  then show ?case by simp
next
  case (9 env a b p v)
  then obtain r where r: "parse env a p v = Inr r" by auto
  obtain iss st x where [simp]: "r = (iss, st, x)" by (cases r)
  show ?case
  proof (cases "st = Valid")
    case True
    have "\<exists>r'. parse env b p x = Inr r'"
      using 9(2) [of "(iss, st, x)" iss "(st, x)" st x] 9(3) r True by simp
    then obtain r' where "parse env b p x = Inr r'" ..
    with r True show ?thesis by (cases r') (simp add: INVALID_def)
  next
    case False
    with r show ?thesis by (cases st) (simp_all add: INVALID_def)
  qed
qed

lemma never_throws_Inr3: "never_throws s \<Longrightarrow> \<exists>iss st x. parse env s p v = Inr (iss, st, x)"
  using never_throws_Inr [of s env p v] by auto

lemma mergeObjectSync_status:
  "fst (mergeObjectSync st fo pairs) =
     (if Aborted \<in> (\<lambda>pr. fst (fst (snd pr))) ` set pairs then Aborted
      else if Dirty \<in> (\<lambda>pr. fst (fst (snd pr))) ` set pairs then dirty st
      else st)"
proof (induction pairs arbitrary: st fo)
  case Nil
  then show ?case by simp
next
  case (Cons pr pairs)
  obtain k s v a where [simp]: "pr = (k, (s, v), a)" by (cases pr) auto
  show ?case
    by (cases s) (auto simp: Cons.IH dirty_def image_iff)
qed

lemma mergeObjectSync_absent:
  "\<forall>pr\<in>set pairs. fst (fst (snd pr)) \<noteq> Aborted \<Longrightarrow> k \<notin> fst ` set pairs \<Longrightarrow>
   get_prop (snd (mergeObjectSync st fo pairs)) k =
     (case map_of fo (js k) of None \<Rightarrow> JUndefined | Some x \<Rightarrow> x)"
proof (induction pairs arbitrary: st fo)
  case Nil
  then show ?case by (simp add: get_prop_def)
next
  case (Cons pr pairs)
  obtain k' s v a where [simp]: "pr = (k', (s, v), a)" by (cases pr) auto
  from Cons.prems have "k' \<noteq> k" by auto
  with Cons show ?case
    by (auto simp: update_conv')
qed

lemma mergeObjectSync_present:
  "\<forall>pr\<in>set pairs. fst (fst (snd pr)) \<noteq> Aborted \<Longrightarrow> distinct (map fst pairs) \<Longrightarrow>
   (k, (s, v), a) \<in> set pairs \<Longrightarrow> k \<noteq> ''__proto__'' \<Longrightarrow> v \<noteq> JUndefined \<Longrightarrow>
   get_prop (snd (mergeObjectSync st fo pairs)) k = v"
proof (induction pairs arbitrary: st fo)
  case Nil
  then show ?case by simp
next
  case (Cons pr pairs)
  obtain k' s' v' a' where pr [simp]: "pr = (k', (s', v'), a')" by (cases pr) auto
  show ?case
  proof (cases "(k, (s, v), a) = pr")
    case True
    then have [simp]: "k' = k" "s' = s" "v' = v" "a' = a" by auto
    from Cons.prems have "k \<notin> fst ` set pairs" by auto
    with Cons.prems show ?thesis
      by (simp add: mergeObjectSync_absent update_conv')
  next
    case False
    with Cons.prems have "(k, (s, v), a) \<in> set pairs" by auto
    with Cons.prems Cons.IH show ?thesis by auto
  qed
qed

lemma zip_map_self: "zip xs (map g xs) = map (\<lambda>x. (x, g x)) xs"
  by (induction xs) auto

lemma parse_ZObject_Inr:
  assumes "\<forall>r\<in>set (field_results env shape p (JObj kvs)). \<exists>y. r = Inr y"
  shows "parse env (ZObject shape) p (JObj kvs) =
           Inr (concat (map issues_of (field_results env shape p (JObj kvs))),
                mergeObjectSync Valid [] (field_pairs env shape p (JObj kvs)))"
proof -
  let ?v = "JObj kvs"
  let ?f = "\<lambda>(k, s). parse env s (p @ [Key k]) (get_prop ?v k)"
  have all: "\<forall>x\<in>set shape. \<exists>y. ?f x = Inr y"
    using assms by (auto simp: field_results_def)
  from sequence_map_Inr [OF this]
  have seq: "sequence (map ?f shape) = Inr (map (\<lambda>x. projr (?f x)) shape)" .
  have iss: "concat (map fst (map (\<lambda>x. projr (?f x)) shape))
             = concat (map issues_of (field_results env shape p ?v))"
    using all by (induction shape) (auto simp: field_results_def issues_of_def)
  have pairs: "map (\<lambda>((k, s), r). (k, snd r, has_prop ?v k)) (zip shape (map (\<lambda>x. projr (?f x)) shape))
               = field_pairs env shape p ?v"
    unfolding zip_map_self using all
    by (induction shape) (auto simp: field_pairs_def status_of_def value_of_def)
  show ?thesis
    using seq iss pairs by (simp split: prod.split)
qed

lemma field_pairs_status:
  "(\<lambda>pr. fst (fst (snd pr))) ` set (field_pairs env shape p v)
     = status_of ` set (field_results env shape p v)"
  by (induction shape) (auto simp: field_pairs_def field_results_def)

lemma object_status:
  "fst (mergeObjectSync Valid [] (field_pairs env shape p v)) =
     (if Aborted \<in> status_of ` set (field_results env shape p v) then Aborted
      else if Dirty \<in> status_of ` set (field_results env shape p v) then Dirty
      else Valid)"
  by (simp add: mergeObjectSync_status field_pairs_status dirty_def)

lemma baseSchema_shape:
  "baseSchema = ZObject (booking_shape (ZOptional ZCoerceDate) (ZOptional ZCoerceDate) [])"
  by (simp add: baseSchema_def booking_shape_def)

lemma fullSchema_shape:
  "fullSchema h = ZObject (booking_shape (startDateSchema h) ZCoerceDate [])"
  by (simp add: fullSchema_def baseSchema_def booking_shape_def)

lemma fullSchemaWithId_shape:
  "fullSchemaWithId h =
     ZRefine (ZObject (booking_shape (startDateSchema h) ZCoerceDate [(''id'', ZString [])]))
       end_after_start ''End date cannot be earlier than start date'' [Key ''endDate'']"
  by (simp add: fullSchemaWithId_def fullSchema_def baseSchema_def booking_shape_def)

lemma selector_cases:
  assumes "BookingFormSchema h action status = Inr s"
  shows "s = ZObject (booking_shape (ZOptional ZCoerceDate) (ZOptional ZCoerceDate) [])
       \<or> (\<exists>extra. (extra = [] \<or> extra = [(''id'', ZString [])]) \<and>
            s = ZRefine (ZObject (booking_shape (startDateSchema h) ZCoerceDate extra))
                  end_after_start ''End date cannot be earlier than start date'' [Key ''endDate''])"
  using assms
  by (auto simp: BookingFormSchema_def baseSchema_shape fullSchema_shape fullSchemaWithId_shape
      split: if_splits option.splits BookingStatus.splits)

lemma custodian_not_string:
  "\<forall>s. c \<noteq> JStr s \<Longrightarrow>
   parse env custodianSchema p c = Inr ([invalid_type_issue ''string'' c p], Aborted, JUndefined)"
  by (cases c) (simp_all add: custodianSchema_def INVALID_def)

lemma custodian_empty:
  "parse env custodianSchema p (JStr []) =
     Inr ([Issue custom p ''Please select a custodian''], Dirty, NEVER)"
  by (simp add: custodianSchema_def custodian_transform_def)

lemma custodian_malformed:
  "s \<noteq> [] \<Longrightarrow> JSON_parse s = None \<Longrightarrow> parse env custodianSchema p (JStr s) = Inl SyntaxError"
  by (simp add: custodianSchema_def custodian_transform_def)

lemma startDateSchema_never_throws [simp]: "never_throws (startDateSchema h)"
  by (simp add: startDateSchema_def)

lemma field_results_booking:
  "field_results env (booking_shape sd ed extra) p v =
     [parse env (ZString [(2, ''Name is required'')]) (p @ [Key ''name'']) (get_prop v ''name''),
      parse env (ZOptional (ZArray (ZString []))) (p @ [Key ''assetIds'']) (get_prop v ''assetIds''),
      parse env (ZOptional (ZString [])) (p @ [Key ''description'']) (get_prop v ''description''),
      parse env custodianSchema (p @ [Key ''custodian'']) (get_prop v ''custodian''),
      parse env sd (p @ [Key ''startDate'']) (get_prop v ''startDate''),
      parse env ed (p @ [Key ''endDate'']) (get_prop v ''endDate'')]
     @ field_results env extra p v"
  by (simp add: field_results_def booking_shape_def del: parse.simps)

lemma field_results_never_throws:
  "list_all (\<lambda>(k, s). never_throws s) shape \<Longrightarrow> \<forall>r\<in>set (field_results env shape p v). \<exists>y. r = Inr y"
  by (induction shape) (auto simp: field_results_def never_throws_Inr3 simp del: parse.simps)

lemma booking_object:
  assumes "never_throws sd" "never_throws ed" "list_all (\<lambda>(k, s). never_throws s) extra"
    and "parse env custodianSchema (p @ [Key ''custodian'']) (get_prop (JObj kvs) ''custodian'') = Inr rc"
  shows "parse env (ZObject (booking_shape sd ed extra)) p (JObj kvs) =
           Inr (concat (map issues_of (field_results env (booking_shape sd ed extra) p (JObj kvs))),
                mergeObjectSync Valid [] (field_pairs env (booking_shape sd ed extra) p (JObj kvs)))"
proof (rule parse_ZObject_Inr)
  have "\<exists>y. parse env (ZString [(2, ''Name is required'')]) (p @ [Key ''name'']) (get_prop (JObj kvs) ''name'') = Inr y"
       "\<exists>y. parse env (ZOptional (ZArray (ZString []))) (p @ [Key ''assetIds'']) (get_prop (JObj kvs) ''assetIds'') = Inr y"
       "\<exists>y. parse env (ZOptional (ZString [])) (p @ [Key ''description'']) (get_prop (JObj kvs) ''description'') = Inr y"
       "\<exists>y. parse env sd (p @ [Key ''startDate'']) (get_prop (JObj kvs) ''startDate'') = Inr y"
       "\<exists>y. parse env ed (p @ [Key ''endDate'']) (get_prop (JObj kvs) ''endDate'') = Inr y"
    using assms by (simp_all add: never_throws_Inr3 del: parse.simps)
  moreover obtain ic sc xc where "rc = (ic, sc, xc)" by (cases rc)
  ultimately show "\<forall>r\<in>set (field_results env (booking_shape sd ed extra) p (JObj kvs)). \<exists>y. r = Inr y"
    using assms(4) field_results_never_throws [OF assms(3)]
    by (auto simp: field_results_booking simp del: parse.simps)
qed

lemma booking_object_throws:
  assumes "parse env custodianSchema (p @ [Key ''custodian'']) (get_prop (JObj kvs) ''custodian'') = Inl e"
  shows "parse env (ZObject (booking_shape sd ed extra)) p (JObj kvs) = Inl e"
proof -
  obtain r1 r2 r3 where
    "parse env (ZString [(2, ''Name is required'')]) (p @ [Key ''name'']) (get_prop (JObj kvs) ''name'') = Inr r1"
    "parse env (ZOptional (ZArray (ZString []))) (p @ [Key ''assetIds'']) (get_prop (JObj kvs) ''assetIds'') = Inr r2"
    "parse env (ZOptional (ZString [])) (p @ [Key ''description'']) (get_prop (JObj kvs) ''description'') = Inr r3"
    using never_throws_Inr [of "ZString [(2, ''Name is required'')]" env "p @ [Key ''name'']" "get_prop (JObj kvs) ''name''"]
      never_throws_Inr [of "ZOptional (ZArray (ZString []))" env "p @ [Key ''assetIds'']" "get_prop (JObj kvs) ''assetIds''"]
      never_throws_Inr [of "ZOptional (ZString [])" env "p @ [Key ''description'']" "get_prop (JObj kvs) ''description''"]
    by (auto simp del: parse.simps)
  with assms show ?thesis
    unfolding booking_shape_def parse.simps(6) by (simp del: parse.simps)
qed

lemma refine_not_valid:
  assumes "parse env s p v = Inr (iss, st, x)" "st \<noteq> Valid"
  shows "\<exists>iss' st' x'. parse env (ZRefine s c m rp) p v = Inr (iss', st', x') \<and> st' \<noteq> Valid
           \<and> set iss \<subseteq> set iss'"
  using assms by (cases st) (auto simp: INVALID_def dirty_def)

lemma custodian_json:
  "s \<noteq> [] \<Longrightarrow> JSON_parse s = Some x \<Longrightarrow>
   parse env custodianSchema p (JStr s) =
     parse env (ZObject [(''id'', ZString []), (''name'', ZString []),
                         (''userId'', ZNullable (ZOptional (ZString [])))]) p x"
proof -
  have "parse env (ZTransform (ZString []) custodian_transform) p (JStr s) = Inr ([], Valid, x)"
    if "s \<noteq> []" "JSON_parse s = Some x"
    using that by (simp add: custodian_transform_def)
  then show "s \<noteq> [] \<Longrightarrow> JSON_parse s = Some x \<Longrightarrow> ?thesis"
    unfolding custodianSchema_def parse.simps(9)
    by (auto simp del: parse.simps split: sum.split)
qed

lemma custodian_returns_Inr:
  assumes "custodian_returns v"
  shows "\<exists>iss st x. parse env custodianSchema p (get_prop v ''custodian'') = Inr (iss, st, x)"
proof (cases "get_prop v ''custodian''")
  case (JStr s)
  show ?thesis
  proof (cases "s = []")
    case True
    with JStr show ?thesis by (simp add: custodian_empty del: parse.simps)
  next
    case False
    with assms JStr obtain x where "JSON_parse s = Some x"
      by (auto simp: custodian_returns_def)
    with False JStr show ?thesis
      by (simp add: custodian_json never_throws_Inr3 del: parse.simps)
  qed
qed (simp_all add: custodian_not_string del: parse.simps)

lemma object_field_issue:
  assumes "\<forall>r\<in>set (field_results env shape p (JObj kvs)). \<exists>y. r = Inr y"
    and "r \<in> set (field_results env shape p (JObj kvs))"
    and "status_of r \<noteq> Valid" and "i \<in> set (issues_of r)"
  shows "\<exists>iss st x. parse env (ZObject shape) p (JObj kvs) = Inr (iss, st, x) \<and> st \<noteq> Valid
           \<and> i \<in> set iss"
proof -
  obtain st x where m: "mergeObjectSync Valid [] (field_pairs env shape p (JObj kvs)) = (st, x)"
    by (cases "mergeObjectSync Valid [] (field_pairs env shape p (JObj kvs))")
  have "st = fst (mergeObjectSync Valid [] (field_pairs env shape p (JObj kvs)))"
    using m by simp
  also have "\<dots> \<noteq> Valid"
  proof -
    have "status_of r \<in> status_of ` set (field_results env shape p (JObj kvs))"
      using assms(2) by (rule imageI)
    then show ?thesis
      using assms(3) unfolding object_status by (cases "status_of r") auto
  qed
  finally have "st \<noteq> Valid" .
  moreover have "i \<in> set (concat (map issues_of (field_results env shape p (JObj kvs))))"
    using assms(2,4) by auto
  ultimately show ?thesis
    using parse_ZObject_Inr [OF assms(1)] m by (simp del: parse.simps)
qed

lemma failure_of_parse:
  "parse env s [] v = Inr (iss, st, x) \<Longrightarrow> st \<noteq> Valid \<Longrightarrow> i \<in> set iss \<Longrightarrow>
   \<exists>iss'. safeParse env s v = Failure iss' \<and> i \<in> set iss'"
  by (auto simp: safeParse_def)

lemma booking_results_Inr:
  assumes "never_throws sd" "never_throws ed" "list_all (\<lambda>(k, s). never_throws s) extra"
    and "custodian_returns (JObj kvs)"
  shows "\<forall>r\<in>set (field_results env (booking_shape sd ed extra) p (JObj kvs)). \<exists>y. r = Inr y"
  using assms(1,2) field_results_never_throws [OF assms(3), of env p "JObj kvs"]
    custodian_returns_Inr [OF assms(4), of env "p @ [Key ''custodian'']"]
  by (auto simp: field_results_booking never_throws_Inr3 simp del: parse.simps)

lemma selected_field_issue:
  assumes sel: "BookingFormSchema h action status = Inr s"
    and ret: "custodian_returns (JObj kvs)"
    and r: "\<And>sd ed extra. r \<in> set (field_results env (booking_shape sd ed extra) [] (JObj kvs))"
    and st: "status_of r \<noteq> Valid" and i: "i \<in> set (issues_of r)"
  shows "\<exists>iss. safeParse env s (JObj kvs) = Failure iss \<and> i \<in> set iss"
proof -
  have obj: "\<exists>iss st x. parse env (ZObject (booking_shape sd ed extra)) [] (JObj kvs) = Inr (iss, st, x)
               \<and> st \<noteq> Valid \<and> i \<in> set iss"
    if "never_throws sd" "never_throws ed" "list_all (\<lambda>(k, s). never_throws s) extra" for sd ed extra
    using object_field_issue [OF booking_results_Inr [OF that ret] r st i] .
  from selector_cases [OF sel] consider
      (base) "s = ZObject (booking_shape (ZOptional ZCoerceDate) (ZOptional ZCoerceDate) [])"
    | (full) extra where "extra = [] \<or> extra = [(''id'', ZString [])]"
        "s = ZRefine (ZObject (booking_shape (startDateSchema h) ZCoerceDate extra))
               end_after_start ''End date cannot be earlier than start date'' [Key ''endDate'']"
    by blast
  then show ?thesis
  proof cases
    case s: base
    from obj [of "ZOptional ZCoerceDate" "ZOptional ZCoerceDate" "[]"] s show ?thesis
      by (auto intro: failure_of_parse simp del: parse.simps)
  next
    case (full extra)
    note e = full(1) and s = full(2)
    from e have "list_all (\<lambda>(k, s). never_throws s) extra" by auto
    from obj [OF _ _ this, of "startDateSchema h" ZCoerceDate]
    obtain iss st x where
      "parse env (ZObject (booking_shape (startDateSchema h) ZCoerceDate extra)) [] (JObj kvs) = Inr (iss, st, x)"
      "st \<noteq> Valid" "i \<in> set iss"
      by auto
    from refine_not_valid [OF this(1,2)] this(3) s show ?thesis
      by (blast intro: failure_of_parse)
  qed
qed

section \<open>The selector\<close>

text \<open>
  C3. A call of the selector with action \<^verbatim>\<open>"save"\<close> and no status throws, whatever
  the hints are; it returns no schema, and in particular not the base schema.
\<close>

theorem save_without_status_throws:
  "BookingFormSchema h ''save'' None = Inl (Error ''Status is required for save action.'')
   \<and> BookingFormSchema h ''save'' None \<noteq> Inr s
   \<and> validate env h ''save'' None v = Threw (Error ''Status is required for save action.'')"
  by (simp add: BookingFormSchema_def validate_def)

section \<open>The custodian\<close>

text \<open>
  C10. Every schema the selector returns requires the custodian: an input whose
  custodian is the empty string fails with the issue "Please select a custodian" at
  the custodian field, and an input without a custodian fails with the issue
  "Required" there. This holds for every action, status, hints and runtime.
\<close>

theorem custodian_required:
  assumes "BookingFormSchema h action status = Inr s"
  shows "(get_prop (JObj kvs) ''custodian'' = JStr [] \<longrightarrow>
            (\<exists>iss. safeParse env s (JObj kvs) = Failure iss
               \<and> Issue custom [Key ''custodian''] ''Please select a custodian'' \<in> set iss))
       \<and> (get_prop (JObj kvs) ''custodian'' = JUndefined \<longrightarrow>
            (\<exists>iss. safeParse env s (JObj kvs) = Failure iss
               \<and> Issue invalid_type [Key ''custodian''] ''Required'' \<in> set iss))"
proof (intro conjI impI)
  let ?r = "parse env custodianSchema [Key ''custodian''] (get_prop (JObj kvs) ''custodian'')"
  have mem: "?r \<in> set (field_results env (booking_shape sd ed extra) [] (JObj kvs))" for sd ed extra
    by (simp add: field_results_booking del: parse.simps)
  {
    assume c: "get_prop (JObj kvs) ''custodian'' = JStr []"
    then have "custodian_returns (JObj kvs)" by (simp add: custodian_returns_def)
    from this show "\<exists>iss. safeParse env s (JObj kvs) = Failure iss
            \<and> Issue custom [Key ''custodian''] ''Please select a custodian'' \<in> set iss"
      by (rule selected_field_issue [OF assms _ mem])
        (simp_all add: c custodian_empty status_of_def issues_of_def del: parse.simps)
  }
  {
    assume c: "get_prop (JObj kvs) ''custodian'' = JUndefined"
    then have "custodian_returns (JObj kvs)" by (simp add: custodian_returns_def)
    from this show "\<exists>iss. safeParse env s (JObj kvs) = Failure iss
            \<and> Issue invalid_type [Key ''custodian''] ''Required'' \<in> set iss"
      by (rule selected_field_issue [OF assms _ mem])
        (simp_all add: c custodian_not_string status_of_def issues_of_def invalid_type_issue_def
           del: parse.simps)
  }
qed

theorem custodian_required_witness:
  "BookingFormSchema None ''save'' (Some COMPLETED) = Inr baseSchema
   \<and> get_prop (JObj [(js ''name'', JStr (js ''Trip'')), (js ''custodian'', JStr [])]) ''custodian'' = JStr []
   \<and> (\<exists>iss. safeParse utc_env baseSchema
               (JObj [(js ''name'', JStr (js ''Trip'')), (js ''custodian'', JStr [])]) = Failure iss
          \<and> Issue custom [Key ''custodian''] ''Please select a custodian'' \<in> set iss)
   \<and> get_prop (JObj [(js ''name'', JStr (js ''Trip''))]) ''custodian'' = JUndefined
   \<and> (\<exists>iss. safeParse utc_env baseSchema (JObj [(js ''name'', JStr (js ''Trip''))]) = Failure iss
          \<and> Issue invalid_type [Key ''custodian''] ''Required'' \<in> set iss)"
proof -
  have sel: "BookingFormSchema None ''save'' (Some COMPLETED) = Inr baseSchema"
    by (simp add: BookingFormSchema_def)
  have g1: "get_prop (JObj [(js ''name'', JStr (js ''Trip'')), (js ''custodian'', JStr [])]) ''custodian'' = JStr []"
    and g2: "get_prop (JObj [(js ''name'', JStr (js ''Trip''))]) ''custodian'' = JUndefined"
    by (simp_all add: get_prop_def)
  from custodian_required [OF sel, of "[(js ''name'', JStr (js ''Trip'')), (js ''custodian'', JStr [])]" utc_env]
    custodian_required [OF sel, of "[(js ''name'', JStr (js ''Trip''))]" utc_env]
  show ?thesis using sel g1 g2 by simp
qed

section \<open>Malformed custodian JSON\<close>

text \<open>
  The transform of the custodian field calls \<^verbatim>\<open>JSON.parse\<close> on every non-empty string
  (form.tsx:87) and Zod does not catch what a transform throws: on a non-empty
  custodian that is not JSON the validation call throws \<^verbatim>\<open>SyntaxError\<close>, under every
  schema the selector returns, and no issue is reported.
\<close>

lemma not_json: "JSON_parse (js ''not-json'') = None"
  by code_simp

lemma malformed_custodian_general:
  assumes sel: "BookingFormSchema h action status = Inr s"
    and c: "get_prop (JObj kvs) ''custodian'' = JStr c" "c \<noteq> []" "JSON_parse c = None"
  shows "safeParse env s (JObj kvs) = Threw SyntaxError"
proof -
  have "parse env custodianSchema ([] @ [Key ''custodian'']) (get_prop (JObj kvs) ''custodian'') = Inl SyntaxError"
    using c by (simp add: custodian_malformed del: parse.simps)
  from booking_object_throws [OF this]
  have obj: "parse env (ZObject (booking_shape sd ed extra)) [] (JObj kvs) = Inl SyntaxError" for sd ed extra .
  from selector_cases [OF sel] show ?thesis
    by (auto simp: safeParse_def obj simp del: parse.simps simp add: parse.simps(7))
qed

text \<open>
  C2 (the code departs from the claim). The custodian \<^verbatim>\<open>"not-json"\<close> is not rejected
  with a field error: for every action, status, hints and runtime the validation call
  throws \<^verbatim>\<open>SyntaxError\<close> (a \<^verbatim>\<open>"save"\<close> without status throws in the selector before).
\<close>

theorem malformed_custodian_throws:
  "validate env h action status
     (JObj [(js ''name'', JStr (js ''Trip'')), (js ''custodian'', JStr (js ''not-json''))])
     = Threw SyntaxError
   \<or> (action = ''save'' \<and> status = None)"
proof (cases "BookingFormSchema h action status")
  case (Inl e)
  then show ?thesis
    by (auto simp: BookingFormSchema_def split: if_splits option.splits BookingStatus.splits)
next
  case (Inr s)
  have "safeParse env s (JObj [(js ''name'', JStr (js ''Trip'')), (js ''custodian'', JStr (js ''not-json''))])
          = Threw SyntaxError"
    by (rule malformed_custodian_general [OF Inr, of _ "js ''not-json''"])
      (simp_all add: get_prop_def not_json, simp add: js_def)
  with Inr show ?thesis by (simp add: validate_def)
qed

text \<open>
  C7 (the code departs from the claim). Under the schema of action \<^verbatim>\<open>"new"\<close>, an input
  whose start date 2020-01-01T10:00 is before the current instant 2024-01-01T00:00 and
  whose custodian is \<^verbatim>\<open>"not-json"\<close> does not fail with "Start date must be in the
  future": the call throws before the start date is looked at.
\<close>

theorem new_past_start_malformed_custodian_throws:
  "validate utc_env None ''new'' None
     (JObj [(js ''name'', JStr (js ''Trip'')),
            (js ''custodian'', JStr (js ''not-json'')),
            (js ''startDate'', JStr (js ''2020-01-01T10:00'')),
            (js ''endDate'', JStr (js ''2020-01-02T10:00''))])
     = Threw SyntaxError
   \<and> Date_new utc_env (JStr (js ''2020-01-01T10:00'')) = Some 1577872800000
   \<and> now_of utc_env None = Some 1704067200000"
  by code_simp

text \<open>
  C9 (the code departs from the claim). Under the schema of action \<^verbatim>\<open>"reserve"\<close>, an
  input without an id whose custodian is \<^verbatim>\<open>"not-json"\<close> does not fail validation: the
  call throws.
\<close>

theorem reserve_without_id_malformed_custodian_throws:
  "validate env h ''reserve'' status
     (JObj [(js ''name'', JStr (js ''Trip'')),
            (js ''custodian'', JStr (js ''not-json'')),
            (js ''startDate'', JStr (js ''2030-01-01T10:00'')),
            (js ''endDate'', JStr (js ''2030-01-02T10:00''))])
     = Threw SyntaxError
   \<and> get_prop (JObj [(js ''name'', JStr (js ''Trip'')),
            (js ''custodian'', JStr (js ''not-json'')),
            (js ''startDate'', JStr (js ''2030-01-01T10:00'')),
            (js ''endDate'', JStr (js ''2030-01-02T10:00''))]) ''id'' = JUndefined"
proof -
  have sel: "BookingFormSchema h ''reserve'' status = Inr (fullSchemaWithId h)"
    by (simp add: BookingFormSchema_def)
  have "safeParse env (fullSchemaWithId h) (JObj [(js ''name'', JStr (js ''Trip'')),
            (js ''custodian'', JStr (js ''not-json'')),
            (js ''startDate'', JStr (js ''2030-01-01T10:00'')),
            (js ''endDate'', JStr (js ''2030-01-02T10:00''))]) = Threw SyntaxError"
    by (rule malformed_custodian_general [OF sel, of _ "js ''not-json''"])
      (simp_all add: get_prop_def not_json, simp add: js_def)
  then show ?thesis by (simp add: validate_def sel get_prop_def)
qed

section \<open>Saving a draft\<close>

text \<open>
  C5. For action \<^verbatim>\<open>"save"\<close> with status DRAFT the selector returns the same schema as
  for action \<^verbatim>\<open>"reserve"\<close>, \<^verbatim>\<open>fullSchemaWithId\<close>: the full field set with the id, the
  future-date refinement on the start date and the refinement of the end date against
  the start date. Every input gets the same result from both.
\<close>

theorem save_draft_is_reserve:
  "BookingFormSchema h ''save'' (Some DRAFT) = Inr (fullSchemaWithId h)
   \<and> BookingFormSchema h ''reserve'' status = Inr (fullSchemaWithId h)
   \<and> validate env h ''save'' (Some DRAFT) v = validate env h ''reserve'' status v
   \<and> fullSchemaWithId h =
       ZRefine (ZObject (booking_shape (startDateSchema h) ZCoerceDate [(''id'', ZString [])]))
         end_after_start ''End date cannot be earlier than start date'' [Key ''endDate'']
   \<and> startDateSchema h =
       ZRefine ZCoerceDate (\<lambda>env data. date_gt data (JDate (now_of env h)))
         ''Start date must be in the future'' []"
  by (simp add: BookingFormSchema_def validate_def fullSchemaWithId_shape startDateSchema_def)

section \<open>Saving a reserved, ongoing or overdue booking\<close>

text \<open>
  C1, as the claim states it, fails: the base schema requires the custodian, so a
  record with only the name and the description does not pass.
\<close>

theorem save_reserved_without_custodian_fails:
  "validate utc_env None ''save'' (Some RESERVED)
     (JObj [(js ''name'', JStr (js ''Trip'')), (js ''description'', JStr (js ''Team offsite''))])
     = Failure [Issue invalid_type [Key ''custodian''] ''Required'']"
  by code_simp

section \<open>The end date against the start date\<close>

text \<open>
  Zod aborts an object when a field aborts, and an aborted field always comes with an
  issue of code \<^verbatim>\<open>invalid_type\<close> or \<^verbatim>\<open>invalid_date\<close>; the refinement of the object
  then does not run. On an object that is not aborted the refinement reads the dates
  the fields produced.
\<close>

lemma sequence_Inr_D: "sequence rs = Inr xs \<Longrightarrow> rs = map Inr xs"
proof (induction rs arbitrary: xs)
  case Nil
  then show ?case by simp
next
  case (Cons r rs)
  then show ?case by (cases r) (auto split: sum.splits)
qed

lemma mergeArray_status:
  "fst (mergeArray st acc rs) =
     (if Aborted \<in> fst ` set rs then Aborted
      else if Dirty \<in> fst ` set rs then dirty st
      else st)"
proof (induction rs arbitrary: st acc)
  case Nil
  then show ?case by simp
next
  case (Cons r rs)
  obtain s v where [simp]: "r = (s, v)" by (cases r)
  show ?case by (cases s) (auto simp: Cons.IH dirty_def image_iff)
qed

lemma aborted_has_type_issue:
  "parse env s p v = Inr (iss, Aborted, x) \<Longrightarrow>
   \<exists>i\<in>set iss. code i = invalid_type \<or> code i = invalid_date"
proof (induction env s p v arbitrary: iss x rule: parse.induct)
  case (1 env checks p v)
  then show ?case
    by (cases v) (auto simp: INVALID_def invalid_type_issue_def Let_def split: if_splits)
next
  case (2 env p v)
  then show ?case by (auto simp: INVALID_def split: option.splits)
next
  case (3 env s p v)
  show ?case
  proof (cases v)
    case (JArr es)
    let ?f = "\<lambda>(i, e). parse env s (p @ [Index i]) e"
    from 3(2) JArr obtain rs out where
      seq: "sequence (map ?f (enumerate 0 es)) = Inr rs"
      and m: "mergeArray Valid [] (map snd rs) = (Aborted, out)"
      and iss: "iss = concat (map fst rs)"
      by (auto split: sum.splits prod.splits)
    from m have "fst (mergeArray Valid [] (map snd rs)) = Aborted" by simp
    then have "Aborted \<in> fst ` set (map snd rs)"
      unfolding mergeArray_status by (auto simp: dirty_def split: if_splits)
    then obtain is' x' where r: "(is', Aborted, x') \<in> set rs" by force
    from sequence_Inr_D [OF seq] r have "Inr (is', Aborted, x') \<in> set (map ?f (enumerate 0 es))"
      by auto
    then obtain i e where "(i, e) \<in> set (enumerate 0 es)"
      "parse env s (p @ [Index i]) e = Inr (is', Aborted, x')" by auto
    from 3(1) [OF JArr this(1) refl this(2)] obtain j where "j \<in> set is'" "code j = invalid_type \<or> code j = invalid_date"
      by auto
    with r iss show ?thesis by force
  qed (use 3(2) in \<open>auto simp: INVALID_def invalid_type_issue_def\<close>)
next
  case (4 env s p v)
  then show ?case by (auto split: if_splits)
next
  case (5 env s p v)
  then show ?case by (auto split: if_splits)
next
  case (6 env shape p v)
  show ?case
  proof (cases v)
    case (JObj kvs)
    let ?f = "\<lambda>(k, s). parse env s (p @ [Key k]) (get_prop v k)"
    let ?g = "\<lambda>((k, s), r). (k, snd r, has_prop v k)"
    from 6(2) JObj obtain rs out where
      seq: "sequence (map ?f shape) = Inr rs"
      and m: "mergeObjectSync Valid [] (map ?g (zip shape rs)) = (Aborted, out)"
      and iss: "iss = concat (map fst rs)"
      by (auto split: sum.splits prod.splits)
    from m have "fst (mergeObjectSync Valid [] (map ?g (zip shape rs))) = Aborted" by simp
    then have "Aborted \<in> (\<lambda>pr. fst (fst (snd pr))) ` set (map ?g (zip shape rs))"
      unfolding mergeObjectSync_status by (auto simp: dirty_def split: if_splits)
    then obtain ks is' x' where "(ks, is', Aborted, x') \<in> set (zip shape rs)" by force
    then have r: "(is', Aborted, x') \<in> set rs" by (auto dest: set_zip_rightD)
    from sequence_Inr_D [OF seq] r have "Inr (is', Aborted, x') \<in> set (map ?f shape)"
      by auto
    then obtain k s where "(k, s) \<in> set shape"
      "parse env s (p @ [Key k]) (get_prop v k) = Inr (is', Aborted, x')" by auto
    from 6(1) [OF JObj this(1) refl this(2)] obtain j where "j \<in> set is'" "code j = invalid_type \<or> code j = invalid_date"
      by auto
    with r iss show ?thesis by force
  qed (use 6(2) in \<open>auto simp: INVALID_def invalid_type_issue_def\<close>)
next
  case (7 env s check msg rpath p v)
  then show ?case
    by (auto simp: INVALID_def dirty_def split: sum.splits if_splits)
next
  case (8 env s f p v)
  then show ?case
    by (auto split: sum.splits if_splits)
next
  case (9 env a b p v)
  from 9(3) show ?case
  proof (cases "parse env a p v")
    case (Inr r)
    obtain ia sa xa where r: "r = (ia, sa, xa)" by (cases r)
    show ?thesis
    proof (cases sa)
      case Valid
      with 9(3) Inr r obtain ib xb where b: "parse env b p xa = Inr (ib, Aborted, xb)" and "iss = ia @ ib"
        by (auto split: sum.splits)
      have "\<exists>i\<in>set ib. code i = invalid_type \<or> code i = invalid_date"
        by (rule 9(2) [OF Inr r [symmetric] refl _ _ b]) (simp_all add: Valid)
      with \<open>iss = ia @ ib\<close> show ?thesis by auto
    next
      case Dirty
      with 9(3) Inr r show ?thesis by simp
    next
      case Aborted
      with 9(3) Inr r have "iss = ia" by (simp add: INVALID_def)
      with 9(1) [of ia xa] Inr r Aborted show ?thesis by simp
    qed
  qed simp
qed

lemma object_value:
  assumes nt: "\<forall>r\<in>set (field_results env shape p (JObj kvs)). \<exists>y. r = Inr y"
    and res: "parse env (ZObject shape) p (JObj kvs) = Inr (iss, st, x)" and st: "st \<noteq> Aborted"
    and d: "distinct (map fst shape)" and k: "(k, s) \<in> set shape" "k \<noteq> ''__proto__''"
    and v: "value_of (parse env s (p @ [Key k]) (get_prop (JObj kvs) k)) \<noteq> JUndefined"
  shows "get_prop x k = value_of (parse env s (p @ [Key k]) (get_prop (JObj kvs) k))"
proof -
  let ?pairs = "field_pairs env shape p (JObj kvs)"
  from parse_ZObject_Inr [OF nt] res
  have m: "mergeObjectSync Valid [] ?pairs = (st, x)" by (simp del: parse.simps)
  then have "fst (mergeObjectSync Valid [] ?pairs) \<noteq> Aborted" using st by simp
  then have "Aborted \<notin> (\<lambda>pr. fst (fst (snd pr))) ` set ?pairs"
    unfolding mergeObjectSync_status by (auto split: if_splits)
  then have na: "\<forall>pr\<in>set ?pairs. fst (fst (snd pr)) \<noteq> Aborted" by force
  have dp: "distinct (map fst ?pairs)"
    using d by (simp add: field_pairs_def case_prod_beta o_def del: parse.simps)
  have mem: "(k, (status_of (parse env s (p @ [Key k]) (get_prop (JObj kvs) k)),
                  value_of (parse env s (p @ [Key k]) (get_prop (JObj kvs) k))),
              has_prop (JObj kvs) k) \<in> set ?pairs"
    using k(1) by (force simp: field_pairs_def simp del: parse.simps)
  from mergeObjectSync_present [OF na dp mem k(2) v, of Valid "[]"] m show ?thesis by simp
qed

lemma booking_shape_distinct:
  "extra = [] \<or> extra = [(''id'', s)] \<Longrightarrow> distinct (map fst (booking_shape sd ed extra))"
  by (auto simp: booking_shape_def)

lemma refined_object_field_issue:
  assumes nt: "never_throws sd" "never_throws ed" "list_all (\<lambda>(k, s). never_throws s) extra"
    and cr: "custodian_returns (JObj kvs)"
    and r: "r \<in> set (field_results env (booking_shape sd ed extra) [] (JObj kvs))"
    and st: "status_of r \<noteq> Valid" and i: "i \<in> set (issues_of r)"
  shows "\<exists>iss. safeParse env (ZRefine (ZObject (booking_shape sd ed extra)) c m rp) (JObj kvs) = Failure iss
           \<and> i \<in> set iss"
proof -
  from object_field_issue [OF booking_results_Inr [OF nt cr] r st i]
  obtain iss st' x where
    "parse env (ZObject (booking_shape sd ed extra)) [] (JObj kvs) = Inr (iss, st', x)"
    "st' \<noteq> Valid" "i \<in> set iss"
    by auto
  from refine_not_valid [OF this(1,2)] this(3) show ?thesis
    by (blast intro: failure_of_parse)
qed

lemma startDate_value:
  "Date_new env v = Some a \<Longrightarrow> value_of (parse env (startDateSchema h) p v) = JDate (Some a)"
  by (simp add: startDateSchema_def value_of_def)

lemma endDate_value:
  "Date_new env v = Some b \<Longrightarrow> value_of (parse env ZCoerceDate p v) = JDate (Some b)"
  by (simp add: value_of_def)

text \<open>
  C6, as the claim states it, fails: an input without a name, with the end date before
  the start date, fails with the one issue "Required" at the name; the message about
  the end date is not among the issues.
\<close>

theorem end_not_after_start_unreported:
  \<open>validate utc_env None ''new'' None
     (JObj [(js ''custodian'', JStr (js ''{"id":"tm_1","name":"Jane Doe"}'')),
            (js ''startDate'', JStr (js ''2024-01-12T09:00'')),
            (js ''endDate'', JStr (js ''2024-01-10T10:00''))])
     = Failure [Issue invalid_type [Key ''name''] ''Required'']
   \<and> Issue custom [Key ''endDate''] ''End date cannot be earlier than start date''
       \<notin> set [Issue invalid_type [Key ''name''] ''Required'']
   \<and> Date_new utc_env (JStr (js ''2024-01-12T09:00'')) = Some 1705050000000
   \<and> Date_new utc_env (JStr (js ''2024-01-10T10:00'')) = Some 1704880800000\<close>
  by code_simp

text \<open>
  C6, amended. Under the schemas of \<^verbatim>\<open>"new"\<close>, \<^verbatim>\<open>"reserve"\<close> and \<^verbatim>\<open>"save"\<close> with
  status DRAFT, an input whose start and end date coerce to dates with the end date
  not after the start date, and whose custodian does not make \<^verbatim>\<open>JSON.parse\<close> throw,
  fails validation; the issues contain "End date cannot be earlier than start date"
  at the end date, unless a field has failed its type check (an issue of code
  \<^verbatim>\<open>invalid_type\<close> or \<^verbatim>\<open>invalid_date\<close> is among them).
\<close>

theorem end_not_after_start_fails:
  assumes act: "action = ''new'' \<or> action = ''reserve'' \<or> (action = ''save'' \<and> status = Some DRAFT)"
    and sd: "Date_new env (get_prop (JObj kvs) ''startDate'') = Some a"
    and ed: "Date_new env (get_prop (JObj kvs) ''endDate'') = Some b"
    and le: "b \<le> a"
    and cr: "custodian_returns (JObj kvs)"
  shows "\<exists>iss. validate env h action status (JObj kvs) = Failure iss
           \<and> (Issue custom [Key ''endDate''] ''End date cannot be earlier than start date'' \<in> set iss
              \<or> (\<exists>i\<in>set iss. code i = invalid_type \<or> code i = invalid_date))"
proof -
  let ?msg = "''End date cannot be earlier than start date''"
  define extra where "extra = (if action = ''new'' then [] else [(''id'', ZString [])])"
  have e: "extra = [] \<or> extra = [(''id'', ZString [])]"
    by (simp add: extra_def)
  have sel: "BookingFormSchema h action status =
               Inr (ZRefine (ZObject (booking_shape (startDateSchema h) ZCoerceDate extra))
                      end_after_start ?msg [Key ''endDate''])"
    using act by (auto simp: extra_def BookingFormSchema_def fullSchema_shape fullSchemaWithId_shape)
  let ?shape = "booking_shape (startDateSchema h) ZCoerceDate extra"
  from e have ne: "list_all (\<lambda>(k, s). never_throws s) extra" by auto
  have nt: "\<forall>r\<in>set (field_results env ?shape [] (JObj kvs)). \<exists>y. r = Inr y"
    by (rule booking_results_Inr [OF _ _ ne cr]) simp_all
  obtain iss st x where res: "parse env (ZObject ?shape) [] (JObj kvs) = Inr (iss, st, x)"
    using parse_ZObject_Inr [OF nt]
    by (cases "mergeObjectSync Valid [] (field_pairs env ?shape [] (JObj kvs))") auto
  show ?thesis
  proof (cases "st = Aborted")
    case True
    with aborted_has_type_issue res obtain i where
      "i \<in> set iss" "code i = invalid_type \<or> code i = invalid_date" by blast
    moreover have "parse env (ZRefine (ZObject ?shape) end_after_start ?msg [Key ''endDate'']) []
                     (JObj kvs) = Inr (iss, Aborted, JUndefined)"
      unfolding parse.simps(7) using res True by (simp add: INVALID_def del: parse.simps)
    ultimately show ?thesis
      unfolding validate_def sel safeParse_def by (auto simp del: parse.simps)
  next
    case False
    have d: "distinct (map fst ?shape)" using e by (rule booking_shape_distinct)
    have "get_prop x ''endDate'' = JDate (Some b)"
      using object_value [OF nt res False d, of "''endDate''" ZCoerceDate] endDate_value [OF ed]
      by (simp add: booking_shape_def del: parse.simps)
    moreover have "get_prop x ''startDate'' = JDate (Some a)"
      using object_value [OF nt res False d, of "''startDate''" "startDateSchema h"]
        startDate_value [OF sd]
      by (simp add: booking_shape_def del: parse.simps)
    ultimately have "\<not> end_after_start env x"
      using le by (simp add: end_after_start_def)
    then have "parse env (ZRefine (ZObject ?shape) end_after_start ?msg [Key ''endDate'']) []
                 (JObj kvs) = Inr (iss @ [Issue custom [Key ''endDate''] ?msg], dirty st, x)"
      unfolding parse.simps(7) using res False by (simp del: parse.simps)
    moreover have "dirty st \<noteq> Valid" by (simp add: dirty_def)
    ultimately show ?thesis
      unfolding validate_def sel safeParse_def by (auto simp del: parse.simps)
  qed
qed

theorem end_not_after_start_fails_witness:
  \<open>Date_new utc_env (JStr (js ''2024-01-12T09:00'')) = Some 1705050000000
   \<and> Date_new utc_env (JStr (js ''2024-01-10T10:00'')) = Some 1704880800000
   \<and> (1704880800000 :: int) \<le> 1705050000000
   \<and> custodian_returns
        (JObj [(js ''name'', JStr (js ''Trip'')),
               (js ''custodian'', JStr (js ''{"id":"tm_1","name":"Jane Doe"}'')),
               (js ''startDate'', JStr (js ''2024-01-12T09:00'')),
               (js ''endDate'', JStr (js ''2024-01-10T10:00''))])
   \<and> (\<exists>iss. validate utc_env None ''new'' None
        (JObj [(js ''name'', JStr (js ''Trip'')),
               (js ''custodian'', JStr (js ''{"id":"tm_1","name":"Jane Doe"}'')),
               (js ''startDate'', JStr (js ''2024-01-12T09:00'')),
               (js ''endDate'', JStr (js ''2024-01-10T10:00''))]) = Failure iss
        \<and> (Issue custom [Key ''endDate''] ''End date cannot be earlier than start date'' \<in> set iss
              \<or> (\<exists>i\<in>set iss. code i = invalid_type \<or> code i = invalid_date)))\<close>
proof -
  let ?kvs = \<open>[(js ''name'', JStr (js ''Trip'')),
               (js ''custodian'', JStr (js ''{"id":"tm_1","name":"Jane Doe"}'')),
               (js ''startDate'', JStr (js ''2024-01-12T09:00'')),
               (js ''endDate'', JStr (js ''2024-01-10T10:00''))]\<close>
  have s: "Date_new utc_env (JStr (js ''2024-01-12T09:00'')) = Some 1705050000000"
    and e: "Date_new utc_env (JStr (js ''2024-01-10T10:00'')) = Some 1704880800000"
    by code_simp+
  have c: "custodian_returns (JObj ?kvs)" by code_simp
  have gs: "get_prop (JObj ?kvs) ''startDate'' = JStr (js ''2024-01-12T09:00'')"
    and ge: "get_prop (JObj ?kvs) ''endDate'' = JStr (js ''2024-01-10T10:00'')"
    by (simp_all add: get_prop_def)
  from end_not_after_start_fails [of "''new''" None utc_env ?kvs 1705050000000 1704880800000 None]
  show ?thesis using s e c gs ge by simp
qed

section \<open>What holds of the start date and the id when the custodian does not throw\<close>

text \<open>
  Apart from the exception of the custodian field, the schema of \<^verbatim>\<open>"new"\<close> reports
  every start date that is not after \<^verbatim>\<open>now\<close>, and the schema of \<^verbatim>\<open>"reserve"\<close> reports a
  missing id.
\<close>

lemma past_start_reported:
  assumes sd: "Date_new env (get_prop (JObj kvs) ''startDate'') = Some a"
    and past: "\<not> date_gt (JDate (Some a)) (JDate (now_of env h))"
    and cr: "custodian_returns (JObj kvs)"
  shows "\<exists>iss. validate env h ''new'' status (JObj kvs) = Failure iss
           \<and> Issue custom [Key ''startDate''] ''Start date must be in the future'' \<in> set iss"
proof -
  let ?r = "parse env (startDateSchema h) [Key ''startDate''] (get_prop (JObj kvs) ''startDate'')"
  have r: "?r = Inr ([Issue custom [Key ''startDate''] ''Start date must be in the future''], Dirty,
                     JDate (Some a))"
    using sd past by (simp add: startDateSchema_def dirty_def)
  have "\<exists>iss. safeParse env (ZRefine (ZObject (booking_shape (startDateSchema h) ZCoerceDate []))
                  end_after_start ''End date cannot be earlier than start date'' [Key ''endDate''])
                (JObj kvs) = Failure iss
          \<and> Issue custom [Key ''startDate''] ''Start date must be in the future'' \<in> set iss"
    by (rule refined_object_field_issue [where r = ?r])
      (simp_all add: cr field_results_booking r status_of_def issues_of_def del: parse.simps)
  then show ?thesis
    by (simp add: validate_def BookingFormSchema_def fullSchema_shape del: parse.simps)
qed

lemma missing_id_reported:
  assumes id: "get_prop (JObj kvs) ''id'' = JUndefined"
    and cr: "custodian_returns (JObj kvs)"
  shows "\<exists>iss. validate env h ''reserve'' status (JObj kvs) = Failure iss
           \<and> Issue invalid_type [Key ''id''] ''Required'' \<in> set iss"
proof -
  let ?r = "parse env (ZString []) [Key ''id''] (get_prop (JObj kvs) ''id'')"
  have r: "?r = Inr ([Issue invalid_type [Key ''id''] ''Required''], Aborted, JUndefined)"
    using id by (simp add: INVALID_def invalid_type_issue_def)
  have "\<exists>iss. safeParse env (ZRefine (ZObject (booking_shape (startDateSchema h) ZCoerceDate [(''id'', ZString [])]))
                  end_after_start ''End date cannot be earlier than start date'' [Key ''endDate''])
                (JObj kvs) = Failure iss
          \<and> Issue invalid_type [Key ''id''] ''Required'' \<in> set iss"
  proof (rule refined_object_field_issue [where r = ?r])
    show "?r \<in> set (field_results env
                     (booking_shape (startDateSchema h) ZCoerceDate [(''id'', ZString [])]) []
                     (JObj kvs))"
      unfolding field_results_booking by (simp add: field_results_def del: parse.simps)
  qed (simp_all add: cr r status_of_def issues_of_def del: parse.simps)
  then show ?thesis
    by (simp add: validate_def BookingFormSchema_def fullSchemaWithId_shape del: parse.simps)
qed

section \<open>Inputs the schemas accept\<close>

lemma is_stringE: "is_string v \<Longrightarrow> (\<And>s. v = JStr s \<Longrightarrow> P) \<Longrightarrow> P"
  by (cases v) (simp_all add: is_string_def)

lemma strings_sequence:
  "sequence (map (\<lambda>(i, e). parse env (ZString []) (p @ [Index i]) e) (enumerate n (map JStr ids)))
     = Inr (map (\<lambda>s. ([], Valid, JStr s)) ids)"
  by (induction ids arbitrary: n) simp_all

lemma strings_merge:
  "mergeArray Valid acc (map (\<lambda>s. (Valid, JStr s)) ids) = (Valid, JArr (acc @ map JStr ids))"
  by (induction ids arbitrary: acc) simp_all

lemma assetIds_ok:
  "v = JUndefined \<or> (\<exists>ids. v = JArr (map JStr ids)) \<Longrightarrow>
   status_of (parse env (ZOptional (ZArray (ZString []))) p v) = Valid"
  by (auto simp: status_of_def strings_sequence strings_merge o_def simp del: parse.simps(1))

lemma description_ok:
  "v = JUndefined \<or> is_string v \<Longrightarrow> status_of (parse env (ZOptional (ZString [])) p v) = Valid"
  by (auto simp: status_of_def elim!: is_stringE)

lemma name_ok:
  "2 \<le> length n \<Longrightarrow> status_of (parse env (ZString [(2, m)]) p (JStr n)) = Valid"
  by (simp add: status_of_def)

lemma custodian_ok:
  assumes "well_formed_custodian c"
  shows "status_of (parse env custodianSchema p c) = Valid"
proof -
  from assms obtain s where s: "c = JStr s" "s \<noteq> []"
    by (cases c) (auto simp: well_formed_custodian_def)
  with assms obtain x where x: "JSON_parse s = Some x"
    by (cases "JSON_parse s") (auto simp: well_formed_custodian_def)
  with assms s obtain kvs where k: "x = JObj kvs"
    by (cases x) (auto simp: well_formed_custodian_def)
  note c = s x [unfolded k]
  have f: "is_string (get_prop (JObj kvs) ''id'')" "is_string (get_prop (JObj kvs) ''name'')"
      "get_prop (JObj kvs) ''userId'' = JUndefined \<or> get_prop (JObj kvs) ''userId'' = JNull
       \<or> is_string (get_prop (JObj kvs) ''userId'')"
    using assms c by (simp_all add: well_formed_custodian_def)
  let ?shape = "[(''id'', ZString []), (''name'', ZString []), (''userId'', ZNullable (ZOptional (ZString [])))]"
  have nt: "\<forall>r\<in>set (field_results env ?shape p (JObj kvs)). \<exists>y. r = Inr y"
    by (rule field_results_never_throws) simp
  have "status_of ` set (field_results env ?shape p (JObj kvs)) = {Valid}"
    using f by (auto simp: field_results_def status_of_def elim!: is_stringE)
  then have "fst (mergeObjectSync Valid [] (field_pairs env ?shape p (JObj kvs))) = Valid"
    unfolding object_status by simp
  with parse_ZObject_Inr [OF nt] c show ?thesis
    by (simp add: custodian_json status_of_def case_prod_beta del: parse.simps)
qed

lemma well_formed_custodian_returns:
  "well_formed_custodian (get_prop v ''custodian'') \<Longrightarrow> custodian_returns v"
  by (cases "get_prop v ''custodian''")
    (auto simp: well_formed_custodian_def custodian_returns_def split: option.splits)

lemma booking_accepts:
  assumes nt: "never_throws sd" "never_throws ed" "list_all (\<lambda>(k, s). never_throws s) extra"
    and name: "get_prop (JObj kvs) ''name'' = JStr n" "2 \<le> length n"
    and assets: "get_prop (JObj kvs) ''assetIds'' = JUndefined
                 \<or> (\<exists>ids. get_prop (JObj kvs) ''assetIds'' = JArr (map JStr ids))"
    and desc: "get_prop (JObj kvs) ''description'' = JUndefined
               \<or> is_string (get_prop (JObj kvs) ''description'')"
    and cust: "well_formed_custodian (get_prop (JObj kvs) ''custodian'')"
    and sd: "status_of (parse env sd (p @ [Key ''startDate'']) (get_prop (JObj kvs) ''startDate'')) = Valid"
    and ed: "status_of (parse env ed (p @ [Key ''endDate'']) (get_prop (JObj kvs) ''endDate'')) = Valid"
    and ex: "\<forall>r\<in>set (field_results env extra p (JObj kvs)). status_of r = Valid"
  shows "\<exists>iss x. parse env (ZObject (booking_shape sd ed extra)) p (JObj kvs) = Inr (iss, Valid, x)"
proof -
  let ?shape = "booking_shape sd ed extra"
  have r: "\<forall>r\<in>set (field_results env ?shape p (JObj kvs)). \<exists>y. r = Inr y"
    by (rule booking_results_Inr [OF nt well_formed_custodian_returns [OF cust]])
  have "status_of ` set (field_results env ?shape p (JObj kvs)) = {Valid}"
    unfolding field_results_booking
    using name_ok [OF name(2)] name(1) assetIds_ok [OF assets] description_ok [OF desc]
      custodian_ok [OF cust] sd ed ex
    by (auto simp del: parse.simps)
  then have "fst (mergeObjectSync Valid [] (field_pairs env ?shape p (JObj kvs))) = Valid"
    unfolding object_status by simp
  with parse_ZObject_Inr [OF r] show ?thesis
    by (cases "mergeObjectSync Valid [] (field_pairs env ?shape p (JObj kvs))")
      (simp del: parse.simps)
qed

lemma optional_date_ok:
  "v = JUndefined \<or> Date_new env v \<noteq> None \<Longrightarrow> status_of (parse env (ZOptional ZCoerceDate) p v) = Valid"
  by (auto simp: status_of_def)

lemma base_accepts:
  assumes name: "get_prop (JObj kvs) ''name'' = JStr n" "2 \<le> length n"
    and assets: "get_prop (JObj kvs) ''assetIds'' = JUndefined
                 \<or> (\<exists>ids. get_prop (JObj kvs) ''assetIds'' = JArr (map JStr ids))"
    and desc: "get_prop (JObj kvs) ''description'' = JUndefined
               \<or> is_string (get_prop (JObj kvs) ''description'')"
    and cust: "well_formed_custodian (get_prop (JObj kvs) ''custodian'')"
    and sd: "get_prop (JObj kvs) ''startDate'' = JUndefined
             \<or> Date_new env (get_prop (JObj kvs) ''startDate'') \<noteq> None"
    and ed: "get_prop (JObj kvs) ''endDate'' = JUndefined
             \<or> Date_new env (get_prop (JObj kvs) ''endDate'') \<noteq> None"
  shows "\<exists>x. safeParse env baseSchema (JObj kvs) = Success x"
proof -
  from booking_accepts [OF _ _ _ name assets desc cust optional_date_ok [OF sd] optional_date_ok [OF ed],
      of "[]" "[]"]
  obtain iss x where
    "parse env (ZObject (booking_shape (ZOptional ZCoerceDate) (ZOptional ZCoerceDate) [])) []
       (JObj kvs) = Inr (iss, Valid, x)"
    by (auto simp: field_results_def simp del: parse.simps)
  then show ?thesis
    by (simp add: safeParse_def baseSchema_shape del: parse.simps)
qed

lemma refinements_baseSchema: "refinements baseSchema = []"
  by (simp add: baseSchema_def custodianSchema_def)

lemma full_accepts:
  assumes act: "action = ''new''
                \<or> ((action = ''reserve'' \<or> action = ''save'' \<and> status = Some DRAFT)
                    \<and> is_string (get_prop (JObj kvs) ''id''))"
    and name: "get_prop (JObj kvs) ''name'' = JStr n" "2 \<le> length n"
    and assets: "get_prop (JObj kvs) ''assetIds'' = JUndefined
                 \<or> (\<exists>ids. get_prop (JObj kvs) ''assetIds'' = JArr (map JStr ids))"
    and desc: "get_prop (JObj kvs) ''description'' = JUndefined
               \<or> is_string (get_prop (JObj kvs) ''description'')"
    and cust: "well_formed_custodian (get_prop (JObj kvs) ''custodian'')"
    and sd: "Date_new env (get_prop (JObj kvs) ''startDate'') = Some a"
    and future: "date_gt (JDate (Some a)) (JDate (now_of env h))"
    and ed: "Date_new env (get_prop (JObj kvs) ''endDate'') = Some b"
    and lt: "a < b"
  shows "\<exists>x. validate env h action status (JObj kvs) = Success x"
proof -
  let ?msg = "''End date cannot be earlier than start date''"
  define extra where "extra = (if action = ''new'' then [] else [(''id'', ZString [])])"
  have e: "extra = [] \<or> extra = [(''id'', ZString [])]"
    by (simp add: extra_def)
  have sel: "BookingFormSchema h action status =
               Inr (ZRefine (ZObject (booking_shape (startDateSchema h) ZCoerceDate extra))
                      end_after_start ?msg [Key ''endDate''])"
    using act by (auto simp: extra_def BookingFormSchema_def fullSchema_shape fullSchemaWithId_shape)
  let ?shape = "booking_shape (startDateSchema h) ZCoerceDate extra"
  from e have ne: "list_all (\<lambda>(k, s). never_throws s) extra" by auto
  have nt: "\<forall>r\<in>set (field_results env ?shape [] (JObj kvs)). \<exists>y. r = Inr y"
    by (rule booking_results_Inr [OF _ _ ne well_formed_custodian_returns [OF cust]]) simp_all
  have ex: "\<forall>r\<in>set (field_results env extra [] (JObj kvs)). status_of r = Valid"
    using act by (auto simp: extra_def field_results_def status_of_def elim!: is_stringE)
  have s1: "status_of (parse env (startDateSchema h) ([] @ [Key ''startDate''])
                         (get_prop (JObj kvs) ''startDate'')) = Valid"
    using sd future by (simp add: startDateSchema_def status_of_def)
  have s2: "status_of (parse env ZCoerceDate ([] @ [Key ''endDate''])
                         (get_prop (JObj kvs) ''endDate'')) = Valid"
    using ed by (simp add: status_of_def)
  from booking_accepts [OF _ _ ne name assets desc cust s1 s2 ex]
  obtain iss x where res: "parse env (ZObject ?shape) [] (JObj kvs) = Inr (iss, Valid, x)"
    by auto
  have d: "distinct (map fst ?shape)" using e by (rule booking_shape_distinct)
  have "get_prop x ''endDate'' = JDate (Some b)"
    using object_value [OF nt res _ d, of "''endDate''" ZCoerceDate] endDate_value [OF ed]
    by (simp add: booking_shape_def del: parse.simps)
  moreover have "get_prop x ''startDate'' = JDate (Some a)"
    using object_value [OF nt res _ d, of "''startDate''" "startDateSchema h"]
      startDate_value [OF sd]
    by (simp add: booking_shape_def del: parse.simps)
  ultimately have "end_after_start env x"
    using lt by (simp add: end_after_start_def)
  then have "parse env (ZRefine (ZObject ?shape) end_after_start ?msg [Key ''endDate'']) []
               (JObj kvs) = Inr (iss, Valid, x)"
    unfolding parse.simps(7) using res by (simp del: parse.simps)
  then show ?thesis
    unfolding validate_def sel safeParse_def by (simp del: parse.simps)
qed

lemma reserve_accepts:
  assumes "is_string (get_prop (JObj kvs) ''id'')"
    and "get_prop (JObj kvs) ''name'' = JStr n" "2 \<le> length n"
    and "get_prop (JObj kvs) ''assetIds'' = JUndefined
         \<or> (\<exists>ids. get_prop (JObj kvs) ''assetIds'' = JArr (map JStr ids))"
    and "get_prop (JObj kvs) ''description'' = JUndefined
         \<or> is_string (get_prop (JObj kvs) ''description'')"
    and "well_formed_custodian (get_prop (JObj kvs) ''custodian'')"
    and "Date_new env (get_prop (JObj kvs) ''startDate'') = Some a"
    and "date_gt (JDate (Some a)) (JDate (now_of env h))"
    and "Date_new env (get_prop (JObj kvs) ''endDate'') = Some b"
    and "a < b"
  shows "\<exists>x. validate env h ''reserve'' status (JObj kvs) = Success x"
  using assms by (intro full_accepts [where n = n and a = a and b = b]) simp_all

text \<open>
  C1, amended. Under the schema of \<^verbatim>\<open>"save"\<close> with status RESERVED, ONGOING or OVERDUE,
  a record with a name of two or more characters, a description and a well-formed
  custodian, and without dates, id and asset ids, passes validation; a record whose
  name has length 1, and whose custodian does not make \<^verbatim>\<open>JSON.parse\<close> throw, fails with
  the issue "Name is required" at the name.
\<close>

theorem save_reserved_rules:
  assumes st: "status = Some RESERVED \<or> status = Some ONGOING \<or> status = Some OVERDUE"
  shows "(get_prop (JObj kvs) ''name'' = JStr n \<and> 2 \<le> length n
            \<and> is_string (get_prop (JObj kvs) ''description'')
            \<and> well_formed_custodian (get_prop (JObj kvs) ''custodian'')
            \<and> get_prop (JObj kvs) ''assetIds'' = JUndefined
            \<and> get_prop (JObj kvs) ''startDate'' = JUndefined
            \<and> get_prop (JObj kvs) ''endDate'' = JUndefined
            \<and> get_prop (JObj kvs) ''id'' = JUndefined
          \<longrightarrow> (\<exists>x. validate env h ''save'' status (JObj kvs) = Success x))
       \<and> (get_prop (JObj kvs) ''name'' = JStr n \<and> length n = 1 \<and> custodian_returns (JObj kvs)
          \<longrightarrow> (\<exists>iss. validate env h ''save'' status (JObj kvs) = Failure iss
                 \<and> Issue too_small [Key ''name''] ''Name is required'' \<in> set iss))"
proof (intro conjI impI)
  from st have sel: "BookingFormSchema h ''save'' status = Inr baseSchema"
    by (auto simp: BookingFormSchema_def)
  {
    assume a: "get_prop (JObj kvs) ''name'' = JStr n \<and> 2 \<le> length n
            \<and> is_string (get_prop (JObj kvs) ''description'')
            \<and> well_formed_custodian (get_prop (JObj kvs) ''custodian'')
            \<and> get_prop (JObj kvs) ''assetIds'' = JUndefined
            \<and> get_prop (JObj kvs) ''startDate'' = JUndefined
            \<and> get_prop (JObj kvs) ''endDate'' = JUndefined
            \<and> get_prop (JObj kvs) ''id'' = JUndefined"
    then have "\<exists>x. safeParse env baseSchema (JObj kvs) = Success x"
      by (intro base_accepts [where n = n]) simp_all
    then show "\<exists>x. validate env h ''save'' status (JObj kvs) = Success x"
      by (simp add: validate_def sel)
  }
  {
    assume a: "get_prop (JObj kvs) ''name'' = JStr n \<and> length n = 1 \<and> custodian_returns (JObj kvs)"
    let ?r = "parse env (ZString [(2, ''Name is required'')]) [Key ''name''] (get_prop (JObj kvs) ''name'')"
    have mem: "?r \<in> set (field_results env (booking_shape sd ed extra) [] (JObj kvs))" for sd ed extra
      by (simp add: field_results_booking del: parse.simps)
    have "\<exists>iss. safeParse env baseSchema (JObj kvs) = Failure iss
            \<and> Issue too_small [Key ''name''] ''Name is required'' \<in> set iss"
      by (rule selected_field_issue [OF sel _ mem])
        (use a in \<open>simp_all add: status_of_def issues_of_def\<close>)
    then show "\<exists>iss. validate env h ''save'' status (JObj kvs) = Failure iss
                 \<and> Issue too_small [Key ''name''] ''Name is required'' \<in> set iss"
      by (simp add: validate_def sel)
  }
qed

theorem save_reserved_rules_witness:
  \<open>(Some RESERVED = Some RESERVED \<or> Some RESERVED = Some ONGOING \<or> Some RESERVED = Some OVERDUE)
   \<and> well_formed_custodian (JStr (js ''{"id":"tm_1","name":"Jane Doe"}''))
   \<and> (\<exists>x. validate utc_env None ''save'' (Some RESERVED)
        (JObj [(js ''name'', JStr (js ''Trip'')),
               (js ''description'', JStr (js ''Team offsite'')),
               (js ''custodian'', JStr (js ''{"id":"tm_1","name":"Jane Doe"}''))]) = Success x)
   \<and> length (js ''T'') = 1
   \<and> custodian_returns
        (JObj [(js ''name'', JStr (js ''T'')),
               (js ''description'', JStr (js ''Team offsite'')),
               (js ''custodian'', JStr (js ''{"id":"tm_1","name":"Jane Doe"}''))])
   \<and> (\<exists>iss. validate utc_env None ''save'' (Some RESERVED)
        (JObj [(js ''name'', JStr (js ''T'')),
               (js ''description'', JStr (js ''Team offsite'')),
               (js ''custodian'', JStr (js ''{"id":"tm_1","name":"Jane Doe"}''))]) = Failure iss
        \<and> Issue too_small [Key ''name''] ''Name is required'' \<in> set iss)\<close>
proof -
  let ?c = \<open>JStr (js ''{"id":"tm_1","name":"Jane Doe"}'')\<close>
  let ?k1 = "[(js ''name'', JStr (js ''Trip'')), (js ''description'', JStr (js ''Team offsite'')),
              (js ''custodian'', ?c)]"
  let ?k2 = "[(js ''name'', JStr (js ''T'')), (js ''description'', JStr (js ''Team offsite'')),
              (js ''custodian'', ?c)]"
  have w: "well_formed_custodian ?c" by code_simp
  have c: "custodian_returns (JObj ?k2)" by code_simp
  have g: "get_prop (JObj ?k1) ''name'' = JStr (js ''Trip'')"
    "get_prop (JObj ?k1) ''description'' = JStr (js ''Team offsite'')"
    "get_prop (JObj ?k1) ''custodian'' = ?c"
    "get_prop (JObj ?k1) ''assetIds'' = JUndefined"
    "get_prop (JObj ?k1) ''startDate'' = JUndefined"
    "get_prop (JObj ?k1) ''endDate'' = JUndefined"
    "get_prop (JObj ?k1) ''id'' = JUndefined"
    "get_prop (JObj ?k2) ''name'' = JStr (js ''T'')"
    by (simp_all add: get_prop_def)
  have l: "2 \<le> length (js ''Trip'')" "length (js ''T'') = 1" by (simp_all add: js_def)
  from save_reserved_rules [of "Some RESERVED" ?k1 "js ''Trip''" utc_env None]
    save_reserved_rules [of "Some RESERVED" ?k2 "js ''T''" utc_env None]
  show ?thesis using w c g l by (simp add: is_string_def)
qed

section \<open>Saving a completed, cancelled or archived booking\<close>

text \<open>
  C4. For action \<^verbatim>\<open>"save"\<close> with status COMPLETED, CANCELLED or ARCHIVED the selector
  returns the base schema. The base schema contains no refinement: whatever the two
  dates are, relative to the current instant and to each other, a record whose other
  fields are well-formed passes.
\<close>

theorem save_terminal_status_base_schema:
  assumes st: "status = Some COMPLETED \<or> status = Some CANCELLED \<or> status = Some ARCHIVED"
  shows "BookingFormSchema h ''save'' status = Inr baseSchema
       \<and> refinements baseSchema = []
       \<and> (get_prop (JObj kvs) ''name'' = JStr n \<and> 2 \<le> length n
            \<and> (get_prop (JObj kvs) ''assetIds'' = JUndefined
                 \<or> (\<exists>ids. get_prop (JObj kvs) ''assetIds'' = JArr (map JStr ids)))
            \<and> (get_prop (JObj kvs) ''description'' = JUndefined
                 \<or> is_string (get_prop (JObj kvs) ''description''))
            \<and> well_formed_custodian (get_prop (JObj kvs) ''custodian'')
            \<and> Date_new env (get_prop (JObj kvs) ''startDate'') = Some a
            \<and> Date_new env (get_prop (JObj kvs) ''endDate'') = Some b
          \<longrightarrow> (\<exists>x. validate env h ''save'' status (JObj kvs) = Success x))"
proof (intro conjI impI)
  from st show sel: "BookingFormSchema h ''save'' status = Inr baseSchema"
    by (auto simp: BookingFormSchema_def)
  show "refinements baseSchema = []" by (rule refinements_baseSchema)
  assume a: "get_prop (JObj kvs) ''name'' = JStr n \<and> 2 \<le> length n
            \<and> (get_prop (JObj kvs) ''assetIds'' = JUndefined
                 \<or> (\<exists>ids. get_prop (JObj kvs) ''assetIds'' = JArr (map JStr ids)))
            \<and> (get_prop (JObj kvs) ''description'' = JUndefined
                 \<or> is_string (get_prop (JObj kvs) ''description''))
            \<and> well_formed_custodian (get_prop (JObj kvs) ''custodian'')
            \<and> Date_new env (get_prop (JObj kvs) ''startDate'') = Some a
            \<and> Date_new env (get_prop (JObj kvs) ''endDate'') = Some b"
  then have "\<exists>x. safeParse env baseSchema (JObj kvs) = Success x"
    by (intro base_accepts [where n = n]) simp_all
  then show "\<exists>x. validate env h ''save'' status (JObj kvs) = Success x"
    by (simp add: validate_def sel)
qed

theorem save_terminal_status_base_schema_witness:
  \<open>(Some COMPLETED = Some COMPLETED \<or> Some COMPLETED = Some CANCELLED \<or> Some COMPLETED = Some ARCHIVED)
   \<and> BookingFormSchema None ''save'' (Some COMPLETED) = Inr baseSchema
   \<and> well_formed_custodian (JStr (js ''{"id":"tm_1","name":"Jane Doe"}''))
   \<and> Date_new utc_env (JStr (js ''2020-01-02T10:00'')) = Some 1577959200000
   \<and> Date_new utc_env (JStr (js ''2020-01-01T10:00'')) = Some 1577872800000
   \<and> now_of utc_env None = Some 1704067200000
   \<and> (\<exists>x. validate utc_env None ''save'' (Some COMPLETED)
        (JObj [(js ''name'', JStr (js ''Trip'')),
               (js ''custodian'', JStr (js ''{"id":"tm_1","name":"Jane Doe"}'')),
               (js ''startDate'', JStr (js ''2020-01-02T10:00'')),
               (js ''endDate'', JStr (js ''2020-01-01T10:00''))]) = Success x)\<close>
proof -
  let ?c = \<open>JStr (js ''{"id":"tm_1","name":"Jane Doe"}'')\<close>
  let ?k = "[(js ''name'', JStr (js ''Trip'')), (js ''custodian'', ?c),
             (js ''startDate'', JStr (js ''2020-01-02T10:00'')),
             (js ''endDate'', JStr (js ''2020-01-01T10:00''))]"
  have w: "well_formed_custodian ?c" by code_simp
  have d: "Date_new utc_env (JStr (js ''2020-01-02T10:00'')) = Some 1577959200000"
    "Date_new utc_env (JStr (js ''2020-01-01T10:00'')) = Some 1577872800000"
    "now_of utc_env None = Some 1704067200000"
    by code_simp+
  have g: "get_prop (JObj ?k) ''name'' = JStr (js ''Trip'')"
    "get_prop (JObj ?k) ''description'' = JUndefined"
    "get_prop (JObj ?k) ''custodian'' = ?c"
    "get_prop (JObj ?k) ''assetIds'' = JUndefined"
    "get_prop (JObj ?k) ''startDate'' = JStr (js ''2020-01-02T10:00'')"
    "get_prop (JObj ?k) ''endDate'' = JStr (js ''2020-01-01T10:00'')"
    by (simp_all add: get_prop_def)
  have l: "2 \<le> length (js ''Trip'')" by (simp add: js_def)
  from save_terminal_status_base_schema [of "Some COMPLETED" None ?k "js ''Trip''" utc_env
      1577959200000 1577872800000]
  show ?thesis using w d g l by simp
qed

section \<open>The end date follows the start date\<close>

lemma six_pm_parts:
  assumes "0 \<le> ms" "ms < 1000"
  shows "Day (MakeDate d (MakeTime 18 0 0 ms)) = d"
    and "HourFromTime (MakeDate d (MakeTime 18 0 0 ms)) = 18"
    and "MinFromTime (MakeDate d (MakeTime 18 0 0 ms)) = 0"
    and "SecFromTime (MakeDate d (MakeTime 18 0 0 ms)) = 0"
proof -
  let ?x = "MakeDate d (MakeTime 18 0 0 ms)"
  have d: "?x = d * 86400000 + (64800000 + ms)"
    and h: "?x = (24 * d + 18) * 3600000 + ms"
    and m: "?x = (1440 * d + 1080) * 60000 + ms"
    and s: "?x = (86400 * d + 64800) * 1000 + ms"
    by (simp_all add: MakeDate_def MakeTime_def msPerDay_def)
  have z: "(64800000 + ms) div 86400000 = 0" "ms div 3600000 = 0" "ms div 60000 = 0" "ms div 1000 = 0"
    using assms by (simp_all add: div_pos_pos_trivial)
  show "Day ?x = d"
    unfolding Day_def msPerDay_def d using z(1) by simp
  have "?x div 3600000 = 24 * d + 18"
    unfolding h using z(2) by simp
  then show "HourFromTime ?x = 18"
    unfolding HourFromTime_def by simp
  have "?x div 60000 = 1440 * d + 1080"
    unfolding m using z(3) by simp
  then show "MinFromTime ?x = 0"
    unfolding MinFromTime_def by simp
  have "?x div 1000 = 86400 * d + 64800"
    unfolding s using z(4) by simp
  then show "SecFromTime ?x = 0"
    unfolding SecFromTime_def by simp
qed

lemma pad_18: "pad 2 18 = js ''18''" and pad_0: "pad 2 0 = js ''00''"
  by code_simp+

lemma TimeClip_of_int:
  assumes "\<bar>z\<bar> \<le> 8640000000000000"
  shows "TimeClip (of_int z) = Some z"
proof -
  have "\<bar>rat_of_int z\<bar> = rat_of_int \<bar>z\<bar>" by simp
  also have "\<dots> \<le> rat_of_int 8640000000000000"
    using assms by (simp only: of_int_le_iff)
  finally have "\<bar>rat_of_int z\<bar> \<le> 8640000000000000" by simp
  then show ?thesis unfolding TimeClip_def by simp
qed

lemma six_pm_string:
  assumes "LocalTime env (UTC env (six_pm env s)) = six_pm env s"
  shows "dateForDateTimeInputValue env (UTC env (six_pm env s))
           = date_string (Day (LocalTime env s)) @ js ''T18:00:00''"
proof -
  have ms: "0 \<le> msFromTime (LocalTime env s)" "msFromTime (LocalTime env s) < 1000"
    by (simp_all add: msFromTime_def)
  show ?thesis
    unfolding dateForDateTimeInputValue_def Let_def assms
    unfolding six_pm_def six_pm_parts [OF ms] pad_18 pad_0
    by (simp add: js_def cu_def)
qed

text \<open>
  C8. On a change of the start date of a new booking that holds an end date: when the
  new start date is after the end date, the end date becomes the calendar day of the
  new start date (in local time) followed by \<^verbatim>\<open>T18:00\<close>, the seconds removed; this is
  under the proviso that the local time 18:00 of that day exists in the runtime's time
  zone and is in the range of \<^verbatim>\<open>Date\<close>. When the booking is not new, when the form
  holds no end date, or when the new start date is not after the end date (also when
  either does not parse), the end date the form holds is unchanged.
\<close>

theorem start_change_adjusts_end:
  "(isNewBooking id' \<and> endDate = Some e \<and> e \<noteq> []
      \<and> Date_parse env val = Some s \<and> Date_parse env e = Some t \<and> t < s
      \<and> LocalTime env (UTC env (six_pm env s)) = six_pm env s
      \<and> \<bar>UTC env (six_pm env s)\<bar> \<le> 8640000000000000
    \<longrightarrow> onStartDateChange env id' endDate val
          = Inr (Some (date_string (Day (LocalTime env s)) @ js ''T18:00'')))
   \<and> (\<not> isNewBooking id' \<longrightarrow> onStartDateChange env id' endDate val = Inr endDate)
   \<and> (endDate = None \<or> endDate = Some [] \<longrightarrow> onStartDateChange env id' endDate val = Inr endDate)
   \<and> (endDate = Some e
        \<and> \<not> (\<exists>s t. Date_parse env val = Some s \<and> Date_parse env e = Some t \<and> t < s)
      \<longrightarrow> onStartDateChange env id' endDate val = Inr endDate)"
proof (intro conjI impI)
  assume a: "isNewBooking id' \<and> endDate = Some e \<and> e \<noteq> []
      \<and> Date_parse env val = Some s \<and> Date_parse env e = Some t \<and> t < s
      \<and> LocalTime env (UTC env (six_pm env s)) = six_pm env s
      \<and> \<bar>UTC env (six_pm env s)\<bar> \<le> 8640000000000000"
  then have sh: "setHours env s 18 0 0 = Some (UTC env (six_pm env s))"
    by (simp add: setHours_def six_pm_def [symmetric] TimeClip_of_int)
  have str: "dateForDateTimeInputValue env (UTC env (six_pm env s))
               = date_string (Day (LocalTime env s)) @ js ''T18:00:00''"
    using a by (intro six_pm_string) simp
  show "onStartDateChange env id' endDate val
          = Inr (Some (date_string (Day (LocalTime env s)) @ js ''T18:00''))"
    using a by (simp add: onStartDateChange_def sh str Let_def) (simp add: js_def)
next
  assume "\<not> isNewBooking id'"
  then show "onStartDateChange env id' endDate val = Inr endDate"
    by (simp add: onStartDateChange_def Let_def split: option.split)
next
  assume "endDate = None \<or> endDate = Some []"
  then show "onStartDateChange env id' endDate val = Inr endDate"
    by (auto simp: onStartDateChange_def Let_def)
next
  assume a: "endDate = Some e
        \<and> \<not> (\<exists>s t. Date_parse env val = Some s \<and> Date_parse env e = Some t \<and> t < s)"
  then have "\<not> date_gt (JDate (Date_parse env val)) (JDate (Date_parse env e))"
    by (cases "Date_parse env val"; cases "Date_parse env e") auto
  with a show "onStartDateChange env id' endDate val = Inr endDate"
    by (simp add: onStartDateChange_def Let_def)
qed

theorem start_change_adjusts_end_witness:
  "isNewBooking None
   \<and> Date_parse utc_env (js ''2024-01-12T09:00'') = Some 1705050000000
   \<and> Date_parse utc_env (js ''2024-01-10T10:00'') = Some 1704880800000
   \<and> Date_parse utc_env (js ''2024-01-09T09:00'') = Some 1704790800000
   \<and> onStartDateChange utc_env None (Some (js ''2024-01-10T10:00'')) (js ''2024-01-12T09:00'')
       = Inr (Some (js ''2024-01-12T18:00''))
   \<and> onStartDateChange utc_env None (Some (js ''2024-01-10T10:00'')) (js ''2024-01-09T09:00'')
       = Inr (Some (js ''2024-01-10T10:00''))
   \<and> onStartDateChange utc_env (Some (js ''bk_1'')) (Some (js ''2024-01-10T10:00'')) (js ''2024-01-12T09:00'')
       = Inr (Some (js ''2024-01-10T10:00''))
   \<and> onStartDateChange utc_env None None (js ''2024-01-12T09:00'') = Inr None"
proof -
  have p: "Date_parse utc_env (js ''2024-01-12T09:00'') = Some 1705050000000"
    "Date_parse utc_env (js ''2024-01-10T10:00'') = Some 1704880800000"
    "Date_parse utc_env (js ''2024-01-09T09:00'') = Some 1704790800000"
    by code_simp+
  have n: "isNewBooking None" "\<not> isNewBooking (Some (js ''bk_1''))"
    by (simp_all add: isNewBooking_def js_def)
  have u: "LocalTime utc_env = (\<lambda>t. t)" "UTC utc_env = (\<lambda>t. t)"
    by (simp_all add: utc_env_def)
  have six: "six_pm utc_env 1705050000000 = 1705082400000"
    by code_simp
  have str: "date_string (Day (LocalTime utc_env 1705050000000)) @ js ''T18:00'' = js ''2024-01-12T18:00''"
    by code_simp
  have ne: "js ''2024-01-10T10:00'' \<noteq> []" by (simp add: js_def)
  note t = start_change_adjusts_end
  from t [of None "Some (js ''2024-01-10T10:00'')" "js ''2024-01-10T10:00''" utc_env
            "js ''2024-01-12T09:00''" 1705050000000 1704880800000]
  have 1: "onStartDateChange utc_env None (Some (js ''2024-01-10T10:00'')) (js ''2024-01-12T09:00'')
       = Inr (Some (js ''2024-01-12T18:00''))"
    using p n u six str ne by simp
  from t [of None "Some (js ''2024-01-10T10:00'')" "js ''2024-01-10T10:00''" utc_env
            "js ''2024-01-09T09:00''"]
  have 2: "onStartDateChange utc_env None (Some (js ''2024-01-10T10:00'')) (js ''2024-01-09T09:00'')
       = Inr (Some (js ''2024-01-10T10:00''))"
    using p by simp
  from t [of "Some (js ''bk_1'')" "Some (js ''2024-01-10T10:00'')" "js ''2024-01-10T10:00''" utc_env
            "js ''2024-01-12T09:00''"]
  have 3: "onStartDateChange utc_env (Some (js ''bk_1'')) (Some (js ''2024-01-10T10:00'')) (js ''2024-01-12T09:00'')
       = Inr (Some (js ''2024-01-10T10:00''))"
    using n by simp
  from t [of None None "[]" utc_env "js ''2024-01-12T09:00''"]
  have 4: "onStartDateChange utc_env None None (js ''2024-01-12T09:00'') = Inr None"
    by simp
  from 1 2 3 4 p n show ?thesis by simp
qed

end
